theory Spec2Isabelle
  imports Complex_Main "HOL-Library.AList"
begin

section \<open>Python values\<close>

text \<open>
  The host (\<^verbatim>\<open>todo_client.py\<close>) and the tool server (\<^verbatim>\<open>good_todo_server.py\<close>) exchange
  JSON-shaped Python values: tool schemas, tool arguments and tool results are all
  \<^verbatim>\<open>Dict[str, Any]\<close>. One datatype carries them. A dict is an association list in
  insertion order (Python dicts keep it); a string is its UTF-8 bytes. No operation of
  the two programs computes with a float, so a float is carried as a real number.
\<close>

datatype pyval =
    PNone
  | PBool bool
  | PInt int
  | PFloat real
  | PStr string
  | PList "pyval list"
  | PDict "(string \<times> pyval) list"

text \<open>
  Exceptions are values. The orchestration loop tells three kinds apart in its
  \<^verbatim>\<open>except\<close> clauses: \<^verbatim>\<open>anthropic.APIConnectionError\<close> (timeouts are a subclass),
  \<^verbatim>\<open>anthropic.AuthenticationError\<close>, and every other subclass of \<^verbatim>\<open>Exception\<close>
  (\<^verbatim>\<open>RuntimeError\<close>, \<^verbatim>\<open>AttributeError\<close>, \<^verbatim>\<open>KeyError\<close>, \<^verbatim>\<open>json.JSONDecodeError\<close>, ...).
  Each carries the text that \<^verbatim>\<open>str(e)\<close> gives.
\<close>

datatype exn =
    APIConnectionError string
  | AuthenticationError string
  | Exception string

fun str_exn :: "exn \<Rightarrow> string" where
  "str_exn (APIConnectionError m) = m"
| "str_exn (AuthenticationError m) = m"
| "str_exn (Exception m) = m"

text \<open>\<^verbatim>\<open>isinstance(v, dict)\<close>.\<close>

fun isinstance_dict :: "pyval \<Rightarrow> bool" where
  "isinstance_dict (PDict kvs) = True"
| "isinstance_dict v = False"

text \<open>
  \<^verbatim>\<open>v.get(key, default)\<close>. Only a dict has the method: on every other JSON-shaped
  value the attribute access raises \<^verbatim>\<open>AttributeError\<close>.
\<close>

fun type_name :: "pyval \<Rightarrow> string" where
  "type_name PNone = ''NoneType''"
| "type_name (PBool b) = ''bool''"
| "type_name (PInt i) = ''int''"
| "type_name (PFloat r) = ''float''"
| "type_name (PStr s) = ''str''"
| "type_name (PList vs) = ''list''"
| "type_name (PDict kvs) = ''dict''"

definition no_attribute :: "string \<Rightarrow> string \<Rightarrow> exn" where
  "no_attribute cls attr =
     Exception ([CHR 0x27] @ cls @ [CHR 0x27] @ '' object has no attribute '' @
                [CHR 0x27] @ attr @ [CHR 0x27])"

fun py_get :: "pyval \<Rightarrow> string \<Rightarrow> pyval \<Rightarrow> exn + pyval" where
  "py_get (PDict kvs) key dflt =
     Inr (case map_of kvs key of Some v \<Rightarrow> v | None \<Rightarrow> dflt)"
| "py_get v key dflt = Inl (no_attribute (type_name v) ''get'')"

section \<open>Tool schema translation (todo\_client.py, convert\_to\_anthropic\_tools)\<close>

text \<open>
  A tool descriptor as the discovery call returns it (\<^verbatim>\<open>mcp.types.Tool\<close>): \<^verbatim>\<open>name\<close>
  is a required string; the code guards \<^verbatim>\<open>description\<close> and \<^verbatim>\<open>inputSchema\<close> with
  \<^verbatim>\<open>hasattr\<close>, so each of them is an optional attribute here (\<open>None\<close>: the object
  has no such attribute). A present \<^verbatim>\<open>description\<close> may be the value \<^verbatim>\<open>None\<close>
  (\<open>Some PNone\<close>).
\<close>

record tool =
  name :: string
  description :: "pyval option"
  inputSchema :: "pyval option"

text \<open>
  The body of the \<^verbatim>\<open>for tool in ...\<close> loop:
  \<^verbatim>\<open>
    params = tool.inputSchema if hasattr(tool, 'inputSchema') else {}
    anthropic_tool = {
        "name": tool.name,
        "description": tool.description if hasattr(tool, 'description') else '',
        "input_schema": {
            "type": "object",
            "properties": params.get('properties', {}) if isinstance(params, dict) else {},
            "required": params.get('required', []) if isinstance(params, dict) else []
        }
    }
  \<close>
\<close>

definition convert_tool :: "tool \<Rightarrow> exn + pyval" where
  "convert_tool t =
     (let params = (case inputSchema t of Some p \<Rightarrow> p | None \<Rightarrow> PDict []) in
      case (if isinstance_dict params then py_get params ''properties'' (PDict [])
            else Inr (PDict [])) of
        Inl e \<Rightarrow> Inl e
      | Inr props \<Rightarrow>
          (case (if isinstance_dict params then py_get params ''required'' (PList [])
                 else Inr (PList [])) of
             Inl e \<Rightarrow> Inl e
           | Inr req \<Rightarrow>
               Inr (PDict
                 [(''name'', PStr (name t)),
                  (''description'',
                     (case description t of Some d \<Rightarrow> d | None \<Rightarrow> PStr '''')),
                  (''input_schema'',
                     PDict [(''type'', PStr ''object''),
                            (''properties'', props),
                            (''required'', req)])])))"

text \<open>
  The loop itself: \<^verbatim>\<open>anthropic_tools = []\<close>, one \<^verbatim>\<open>append\<close> per tool, in order. An
  exception in the body would leave the loop at once.
\<close>

fun convert_loop :: "tool list \<Rightarrow> pyval list \<Rightarrow> exn + pyval list" where
  "convert_loop [] anthropic_tools = Inr anthropic_tools"
| "convert_loop (t # rest) anthropic_tools =
     (case convert_tool t of
        Inl e \<Rightarrow> Inl e
      | Inr anthropic_tool \<Rightarrow> convert_loop rest (anthropic_tools @ [anthropic_tool]))"

text \<open>
  The method reads \<^verbatim>\<open>self.mcp_client.available_tools\<close> and returns a new list; here
  it takes \<^verbatim>\<open>self\<close> and hands it back beside the result. Which objects it reads,
  allocates and writes is modelled on an explicit store in a section of its own. The
  client records are declared with the orchestration loop below.
\<close>

section \<open>Conversation, model replies and tool responses\<close>

text \<open>
  A content block of a model reply. The code tells blocks apart by their \<^verbatim>\<open>type\<close>
  field: \<^verbatim>\<open>"text"\<close> (a \<^verbatim>\<open>TextBlock\<close> with \<^verbatim>\<open>.text\<close>), \<^verbatim>\<open>"tool_use"\<close> (a
  \<^verbatim>\<open>ToolUseBlock\<close> with \<^verbatim>\<open>.id\<close>, \<^verbatim>\<open>.name\<close>, \<^verbatim>\<open>.input\<close>), or anything else (thinking
  blocks and the like), which both list comprehensions skip.
\<close>

datatype block =
    TextBlock (block_text: string)
  | ToolUseBlock (block_id: string) (block_name: string) (block_input: pyval)
  | OtherBlock

fun is_tool_use :: "block \<Rightarrow> bool" where
  "is_tool_use (ToolUseBlock i n a) = True"
| "is_tool_use b = False"

fun is_text :: "block \<Rightarrow> bool" where
  "is_text (TextBlock s) = True"
| "is_text b = False"

text \<open>
  The three shapes of dict the loop appends to \<^verbatim>\<open>messages\<close>:
  \<^verbatim>\<open>{"role": "user", "content": user_input}\<close>,
  \<^verbatim>\<open>{"role": "assistant", "content": response.content}\<close> and
  \<^verbatim>\<open>{"role": "user", "content": [{"type": "tool_result", "tool_use_id": ..., "content": ...}]}\<close>,
  the last with \<^verbatim>\<open>"is_error": True\<close> in the handler and without the key otherwise
  (\<open>is_error = False\<close>).
\<close>

datatype message =
    UserMessage string
  | AssistantMessage "block list"
  | ToolResultMessage (tool_use_id: string) (payload: string) (is_error: bool)

text \<open>
  What \<^verbatim>\<open>session.call_tool\<close> returns. The loop asks \<^verbatim>\<open>hasattr(result, 'content')\<close>,
  then whether the content is non-empty, then reads \<^verbatim>\<open>result.content[0].text\<close>; a
  content item that is not text (an image, an embedded resource) has no \<^verbatim>\<open>.text\<close>;
  it is carried by its class name.
  \<open>result_content = None\<close>: the object has no \<^verbatim>\<open>content\<close> attribute.
\<close>

datatype mcp_content = TextContent string | NonTextContent string

datatype call_tool_result = CallToolResult (result_content: "mcp_content list option")

text \<open>
  The two external collaborators are functions on an explicit world state \<open>'w\<close>: the
  model API (\<^verbatim>\<open>anthropic_client.messages.create\<close>, given the conversation and the tool
  definitions; model name, token limit, temperature and system prompt are constants of
  the call) and the MCP session (\<^verbatim>\<open>session.call_tool\<close>). Either returns a value or
  raises. \<^verbatim>\<open>json.loads\<close> and \<^verbatim>\<open>json.dumps\<close> are library functions, taken as parameters;
  \<^verbatim>\<open>json.dumps\<close> of a value that \<^verbatim>\<open>json.loads\<close> produced does not raise.
\<close>

type_synonym 'w session_t = "'w \<Rightarrow> string \<Rightarrow> pyval \<Rightarrow> (exn + call_tool_result) \<times> 'w"

type_synonym 'w anthropic_t = "'w \<Rightarrow> message list \<Rightarrow> pyval list \<Rightarrow> (exn + block list) \<times> 'w"

record json_module =
  loads :: "string \<Rightarrow> exn + pyval"
  dumps :: "pyval \<Rightarrow> string"

record 'w TodoMCPClient =
  session :: "'w session_t option"
  available_tools :: "tool list"

record 'w TodoChatClient =
  mcp_client :: "'w TodoMCPClient"
  anthropic_client :: "'w anthropic_t"
  conversation_history :: "message list"
  debug :: bool

definition convert_to_anthropic_tools ::
  "'w TodoChatClient \<Rightarrow> (exn + pyval list) \<times> 'w TodoChatClient" where
  "convert_to_anthropic_tools self =
     (convert_loop (available_tools (mcp_client self)) [], self)"

text \<open>
  Every call that leaves the process is recorded, request and response, in the order
  made: the trace is the observable behaviour of one \<^verbatim>\<open>process_with_llm\<close> call beside
  its return value.
\<close>

datatype event =
    LLMCall "message list" "exn + block list"
  | ToolCall string pyval "exn + call_tool_result"

record 'w run =
  world :: 'w
  messages :: "message list"
  trace :: "event list"

section \<open>The tool client adapter (TodoMCPClient.call\_tool)\<close>

text \<open>
  \<^verbatim>\<open>
    if self.session is None:
        raise RuntimeError("MCP session not initialized. Call connect() first.")
    result = await self.session.call_tool(tool_name, arguments)
    return result
  \<close>
\<close>

definition call_tool ::
  "'w TodoMCPClient \<Rightarrow> string \<Rightarrow> pyval \<Rightarrow> 'w run \<Rightarrow> (exn + call_tool_result) \<times> 'w run" where
  "call_tool self tool_name arguments st =
     (case session self of
        None \<Rightarrow> (Inl (Exception ''MCP session not initialized. Call connect() first.''), st)
      | Some sess \<Rightarrow>
          (let (result, w') = sess (world st) tool_name arguments
           in (result,
               st\<lparr>world := w', trace := trace st @ [ToolCall tool_name arguments result]\<rparr>)))"

section \<open>The orchestration loop (TodoChatClient.process\_with\_llm)\<close>

text \<open>
  Parsing a tool response:
  \<^verbatim>\<open>
    if hasattr(result, 'content'):
        result_data = json.loads(result.content[0].text) if result.content else {}
    else:
        result_data = {}
  \<close>
\<close>

definition parse_result :: "json_module \<Rightarrow> call_tool_result \<Rightarrow> exn + pyval" where
  "parse_result json result =
     (case result_content result of
        None \<Rightarrow> Inr (PDict [])
      | Some [] \<Rightarrow> Inr (PDict [])
      | Some (TextContent t # rest) \<Rightarrow> loads json t
      | Some (NonTextContent cls # rest) \<Rightarrow> Inl (no_attribute cls ''text''))"

text \<open>
  One pass of the body of \<^verbatim>\<open>for tool_call in tool_calls\<close>: the \<^verbatim>\<open>try\<close> block calls the
  tool, parses the response and appends the result message; \<^verbatim>\<open>except Exception as e\<close>
  appends the error message instead. \<^verbatim>\<open>tool_calls\<close> holds tool-use blocks only, so the
  three selectors are read where they are defined.

  The loop is modelled as it runs with debug logging off, the constructor's default:
  the \<^verbatim>\<open>if self.debug:\<close> blocks are then skipped. With debug on they print inside the
  two \<^verbatim>\<open>try\<close> blocks, and a print that raises is handled there like any other
  exception of the block; the block of a final reply prints the reply's own text before
  it is returned.
\<close>

definition error_result :: "string \<Rightarrow> exn \<Rightarrow> message" where
  "error_result tool_id e = ToolResultMessage tool_id (''Error: '' @ str_exn e) True"

definition execute_tool_call ::
  "json_module \<Rightarrow> 'w TodoChatClient \<Rightarrow> block \<Rightarrow> 'w run \<Rightarrow> 'w run" where
  "execute_tool_call json self tool_call st =
     (let tool_name = block_name tool_call;
          tool_args = block_input tool_call;
          tool_id = block_id tool_call
      in case call_tool (mcp_client self) tool_name tool_args st of
           (Inl e, st') \<Rightarrow> st'\<lparr>messages := messages st' @ [error_result tool_id e]\<rparr>
         | (Inr result, st') \<Rightarrow>
             (case parse_result json result of
                Inl e \<Rightarrow> st'\<lparr>messages := messages st' @ [error_result tool_id e]\<rparr>
              | Inr result_data \<Rightarrow>
                  st'\<lparr>messages := messages st' @
                     [ToolResultMessage tool_id (dumps json result_data) False]\<rparr>))"

fun execute_tool_calls ::
  "json_module \<Rightarrow> 'w TodoChatClient \<Rightarrow> block list \<Rightarrow> 'w run \<Rightarrow> 'w run" where
  "execute_tool_calls json self [] st = st"
| "execute_tool_calls json self (tool_call # rest) st =
     execute_tool_calls json self rest (execute_tool_call json self tool_call st)"

text \<open>
  The handlers of the outer \<^verbatim>\<open>try\<close>, in the order written. \<^verbatim>\<open>str(e).lower()\<close> is
  modelled on the UTF-8 bytes of the message by lowering the ASCII letters. For the two
  \<^verbatim>\<open>in\<close> tests this decides as Python does: both patterns are ASCII, the bytes of a
  non-ASCII character are never ASCII bytes, and the only non-ASCII characters whose
  lowering contains an ASCII letter give \<^verbatim>\<open>k\<close>, and \<^verbatim>\<open>i\<close> followed by a combining mark,
  which complete neither pattern. The message texts are the bytes of the source file's
  literals.
\<close>

definition lower_char :: "char \<Rightarrow> char" where
  "lower_char c =
     (case map_of (zip ''ABCDEFGHIJKLMNOPQRSTUVWXYZ'' ''abcdefghijklmnopqrstuvwxyz'') c of
        Some l \<Rightarrow> l
      | None \<Rightarrow> c)"

definition str_lower :: "string \<Rightarrow> string" where
  "str_lower s = map lower_char s"

fun str_in :: "string \<Rightarrow> string \<Rightarrow> bool" where
  "str_in sub [] = (sub = [])"
| "str_in sub (c # cs) = (take (length sub) (c # cs) = sub \<or> str_in sub cs)"

definition nl :: string where
  "nl = [CHR 0x0A]"

definition bullet :: string where
  "bullet = [CHR 0xC3, CHR 0xA2, CHR 0xE2, CHR 0x82, CHR 0xAC, CHR 0xC2, CHR 0xA2]"

definition ssl_error_text :: string where
  "ssl_error_text =
     [CHR 0xC3, CHR 0xB0, CHR 0xC5, CHR 0xB8, CHR 0xE2, CHR 0x80, CHR 0x9D, CHR 0xE2,
      CHR 0x80, CHR 0x99] @
     '' SSL Certificate Error: Unable to connect to Claude API.'' @ nl @
     nl @
     ''This could be caused by:'' @ nl @
     ''1. Missing Python certificates (common on macOS)'' @ nl @
     ''2. Corporate proxy/firewall (e.g., ZScaler) intercepting SSL'' @ nl @
     nl @
     ''Possible solutions:'' @ nl @
     bullet @ '' Run: pip install --upgrade certifi'' @ nl @
     bullet @ '' Check with your IT team about proxy certificates'' @ nl @
     bullet @ '' Set proxy environment variables if behind a corporate firewall''"

definition connection_error_text :: string where
  "connection_error_text =
     [CHR 0xC3, CHR 0xB0, CHR 0xC5, CHR 0xB8, CHR 0xC5, CHR 0x92] @
     '' Connection Error: Unable to reach Claude API.'' @ nl @
     ''Please check:'' @ nl @
     ''1. Your internet connection'' @ nl @
     ''2. Your ANTHROPIC_API_KEY is valid'' @ nl @
     ''3. If behind a corporate proxy, set HTTPS_PROXY in your .env.local file''"

definition authentication_error_text :: string where
  "authentication_error_text =
     [CHR 0xC3, CHR 0xB0, CHR 0xC5, CHR 0xB8, CHR 0xE2, CHR 0x80, CHR 0x9D, CHR 0xE2,
      CHR 0x80, CHR 0x98] @
     '' Authentication Error: Invalid API key.'' @ nl @
     ''Please check that your ANTHROPIC_API_KEY in .env.local is correct.''"

fun handle_api_error :: "exn \<Rightarrow> string" where
  "handle_api_error (APIConnectionError m) =
     (let error_msg = str_lower m in
      if str_in ''certificate'' error_msg \<or> str_in ''ssl'' error_msg
      then ssl_error_text
      else connection_error_text)"
| "handle_api_error (AuthenticationError m) = authentication_error_text"
| "handle_api_error (Exception m) = ''Error: '' @ m"

definition max_iterations :: nat where
  "max_iterations = 10"

definition cap_message :: string where
  "cap_message =
     ''I need more time to complete this request. Please try breaking it into smaller steps.''"

text \<open>
  \<^verbatim>\<open>for iteration in range(max_iterations)\<close>, counted down by the iterations left.
  Each pass calls the model, appends the reply, and either returns (no tool call in the
  reply) or runs the tool calls and goes round again. Everything a pass can raise is
  raised by the model call and caught by one of the three handlers, which return a
  text. After the last pass the statement after the loop returns the fixed message.
\<close>

fun run_iterations ::
  "json_module \<Rightarrow> 'w TodoChatClient \<Rightarrow> pyval list \<Rightarrow> nat \<Rightarrow> 'w run \<Rightarrow> string \<times> 'w run" where
  "run_iterations json self tools 0 st = (cap_message, st)"
| "run_iterations json self tools (Suc n) st =
     (let (response, w') = anthropic_client self (world st) (messages st) tools;
          st1 = st\<lparr>world := w', trace := trace st @ [LLMCall (messages st) response]\<rparr>
      in case response of
           Inl e \<Rightarrow> (handle_api_error e, st1)
         | Inr content \<Rightarrow>
             (let st2 = st1\<lparr>messages := messages st1 @ [AssistantMessage content]\<rparr>;
                  tool_calls = filter is_tool_use content
              in if tool_calls = [] then
                   (let text_blocks = filter is_text content
                    in case text_blocks of
                         b # bs \<Rightarrow> (block_text b, st2)
                       | [] \<Rightarrow> (''I completed the task.'', st2))
                 else run_iterations json self tools n
                        (execute_tool_calls json self tool_calls st2)))"

text \<open>
  The whole method. The tool definitions are built before the \<^verbatim>\<open>try\<close>, so an
  exception of the translation would reach the caller (\<open>Inl\<close>); everything after it
  returns a string.
\<close>

definition process_with_llm ::
  "json_module \<Rightarrow> 'w TodoChatClient \<Rightarrow> string \<Rightarrow> 'w \<Rightarrow> (exn + string) \<times> 'w run" where
  "process_with_llm json self user_input w =
     (case convert_to_anthropic_tools self of
        (Inl e, self') \<Rightarrow> (Inl e, \<lparr>world = w, messages = [], trace = []\<rparr>)
      | (Inr tools, self') \<Rightarrow>
          (let (answer, st) =
                 run_iterations json self' tools max_iterations
                   \<lparr>world = w, messages = [UserMessage user_input], trace = []\<rparr>
           in (Inr answer, st)))"

section \<open>The tool server (good\_todo\_server.py)\<close>

text \<open>
  Python's \<^verbatim>\<open>d[key]\<close> raises \<^verbatim>\<open>KeyError\<close> on a missing key; \<open>repr\<close> prints the key
  for the exception's text. \<^verbatim>\<open>key in d\<close> is \<open>map_of d key \<noteq> None\<close>, \<^verbatim>\<open>d[key] = v\<close> is
  \<open>AList.update\<close> (a new key goes last, a present key keeps its place) and
  \<^verbatim>\<open>d.pop(key)\<close> is a lookup followed by \<open>AList.delete\<close>.
\<close>

definition py_getitem :: "('k \<Rightarrow> string) \<Rightarrow> ('k \<times> 'v) list \<Rightarrow> 'k \<Rightarrow> exn + 'v" where
  "py_getitem repr d key =
     (case map_of d key of Some v \<Rightarrow> Inr v | None \<Rightarrow> Inl (Exception (repr key)))"

definition digit_char :: "nat \<Rightarrow> char" where
  "digit_char d = ''0123456789'' ! d"

fun str_nat :: "nat \<Rightarrow> string" where
  "str_nat n =
     (if n < 10 then [digit_char n]
      else str_nat (n div 10) @ [digit_char (n mod 10)])"

declare str_nat.simps [simp del]

definition str_int :: "int \<Rightarrow> string" where
  "str_int i = (if i < 0 then CHR ''-'' # str_nat (nat (- i)) else str_nat (nat i))"

definition repr_str :: "string \<Rightarrow> string" where
  "repr_str s = [CHR 0x27] @ s @ [CHR 0x27]"

text \<open>Truth value of a Python object, as \<^verbatim>\<open>and\<close> and \<^verbatim>\<open>not\<close> test it.\<close>

fun truthy :: "pyval \<Rightarrow> bool" where
  "truthy PNone = False"
| "truthy (PBool b) = b"
| "truthy (PInt i) = (i \<noteq> 0)"
| "truthy (PFloat r) = (r \<noteq> 0)"
| "truthy (PStr s) = (s \<noteq> [])"
| "truthy (PList vs) = (vs \<noteq> [])"
| "truthy (PDict kvs) = (kvs \<noteq> [])"

text \<open>
  \<^verbatim>\<open>
  class TodoStore:
      def __init__(self):
          self.todos: Dict[int, Dict[str, Any]] = {}
          self._next_id = 1
      def get_next_id(self) -> int:
          current_id = self._next_id
          self._next_id += 1
          return current_id
  \<close>
  Python integers are unbounded: \<open>int\<close>. The module-level \<^verbatim>\<open>todo_store\<close> is passed to
  each tool function and returned updated.
\<close>

record TodoStore =
  todos :: "(int \<times> (string \<times> pyval) list) list"
  next_id :: int

definition TodoStore_init :: TodoStore where
  "TodoStore_init = \<lparr>todos = [], next_id = 1\<rparr>"

definition get_next_id :: "TodoStore \<Rightarrow> int \<times> TodoStore" where
  "get_next_id self = (let current_id = next_id self in (current_id, self\<lparr>next_id := next_id self + 1\<rparr>))"

text \<open>
  The four tool functions. Each takes its validated arguments (the framework checks
  types and patterns before the call), the clock reading \<^verbatim>\<open>datetime.now().isoformat()\<close>
  where the function takes one, and the store. A function that can raise returns
  \<open>Inl\<close>; every raising lookup comes before the first write, so the store is then as
  it was.
\<close>

definition create_todo ::
  "string \<Rightarrow> string \<Rightarrow> string \<Rightarrow> string \<Rightarrow> TodoStore \<Rightarrow> pyval \<times> TodoStore" where
  "create_todo title descr priority now store =
     (let (todo_id, store1) = get_next_id store;
          todo = [(''id'', PInt todo_id),
                  (''title'', PStr title),
                  (''description'', PStr descr),
                  (''priority'', PStr priority),
                  (''completed'', PBool False),
                  (''created_at'', PStr now)];
          store2 = store1\<lparr>todos := AList.update todo_id todo (todos store1)\<rparr>
      in (PDict [(''success'', PBool True), (''todo'', PDict todo)], store2))"

fun filter_todos ::
  "string \<Rightarrow> (string \<times> pyval) list list \<Rightarrow> (string \<times> pyval) list list \<Rightarrow>
   exn + (string \<times> pyval) list list" where
  "filter_todos status [] filtered_todos = Inr filtered_todos"
| "filter_todos status (todo # rest) filtered_todos =
     (if status = ''all'' then filter_todos status rest (filtered_todos @ [todo])
      else
        case (if status = ''completed''
              then map_sum id truthy (py_getitem repr_str todo ''completed'')
              else Inr False) of
          Inl e \<Rightarrow> Inl e
        | Inr True \<Rightarrow> filter_todos status rest (filtered_todos @ [todo])
        | Inr False \<Rightarrow>
            (case (if status = ''pending''
                   then map_sum id (\<lambda>c. \<not> truthy c) (py_getitem repr_str todo ''completed'')
                   else Inr False) of
               Inl e \<Rightarrow> Inl e
             | Inr True \<Rightarrow> filter_todos status rest (filtered_todos @ [todo])
             | Inr False \<Rightarrow> filter_todos status rest filtered_todos))"

definition list_todos :: "string \<Rightarrow> TodoStore \<Rightarrow> exn + pyval \<times> TodoStore" where
  "list_todos status store =
     (case filter_todos status (map snd (todos store)) [] of
        Inl e \<Rightarrow> Inl e
      | Inr filtered_todos \<Rightarrow>
          Inr (PDict [(''todos'', PList (map PDict filtered_todos)),
                      (''count'', PInt (int (length filtered_todos))),
                      (''total'', PInt (int (length (todos store))))],
               store))"

definition not_found :: "int \<Rightarrow> pyval" where
  "not_found todo_id =
     PDict [(''success'', PBool False),
            (''error'', PStr (''Todo '' @ str_int todo_id @ '' not found''))]"

definition update_todo ::
  "int \<Rightarrow> string option \<Rightarrow> string option \<Rightarrow> string option \<Rightarrow> bool option \<Rightarrow> string \<Rightarrow>
   TodoStore \<Rightarrow> exn + pyval \<times> TodoStore" where
  "update_todo todo_id title descr priority completed now store =
     (if map_of (todos store) todo_id = None then Inr (not_found todo_id, store)
      else
        case py_getitem str_int (todos store) todo_id of
          Inl e \<Rightarrow> Inl e
        | Inr todo \<Rightarrow>
            (let todo1 = (case title of Some v \<Rightarrow> AList.update ''title'' (PStr v) todo
                          | None \<Rightarrow> todo);
                 todo2 = (case descr of Some v \<Rightarrow> AList.update ''description'' (PStr v) todo1
                          | None \<Rightarrow> todo1);
                 todo3 = (case priority of Some v \<Rightarrow> AList.update ''priority'' (PStr v) todo2
                          | None \<Rightarrow> todo2);
                 todo4 = (case completed of Some v \<Rightarrow> AList.update ''completed'' (PBool v) todo3
                          | None \<Rightarrow> todo3);
                 todo5 = AList.update ''updated_at'' (PStr now) todo4
             in Inr (PDict [(''success'', PBool True), (''todo'', PDict todo5)],
                     store\<lparr>todos := AList.update todo_id todo5 (todos store)\<rparr>)))"

definition delete_todo :: "int \<Rightarrow> TodoStore \<Rightarrow> exn + pyval \<times> TodoStore" where
  "delete_todo todo_id store =
     (if map_of (todos store) todo_id = None then Inr (not_found todo_id, store)
      else
        case py_getitem str_int (todos store) todo_id of
          Inl e \<Rightarrow> Inl e
        | Inr deleted_todo \<Rightarrow>
            Inr (PDict [(''success'', PBool True), (''deleted_todo'', PDict deleted_todo)],
                 store\<lparr>todos := AList.delete todo_id (todos store)\<rparr>))"

text \<open>
  A sequence of tool calls against one store. A call that raises leaves the store as it
  was. \<open>issued_ids\<close> collects, in order, the \<^verbatim>\<open>result["todo"]["id"]\<close> of every
  \<^verbatim>\<open>create_todo\<close> call of the sequence.
\<close>

datatype op =
    Create string string string string
  | ListTodos string
  | Update int "string option" "string option" "string option" "bool option" string
  | Delete int

fun apply_op :: "op \<Rightarrow> TodoStore \<Rightarrow> exn + pyval \<times> TodoStore" where
  "apply_op (Create title descr priority now) store = Inr (create_todo title descr priority now store)"
| "apply_op (ListTodos status) store = list_todos status store"
| "apply_op (Update todo_id title descr priority completed now) store =
     update_todo todo_id title descr priority completed now store"
| "apply_op (Delete todo_id) store = delete_todo todo_id store"

fun is_create :: "op \<Rightarrow> bool" where
  "is_create (Create title descr priority now) = True"
| "is_create c = False"

fun result_todo_id :: "pyval \<Rightarrow> int list" where
  "result_todo_id (PDict kvs) =
     (case map_of kvs ''todo'' of
        Some (PDict todo) \<Rightarrow> (case map_of todo ''id'' of Some (PInt i) \<Rightarrow> [i] | _ \<Rightarrow> [])
      | _ \<Rightarrow> [])"
| "result_todo_id v = []"

fun issued_ids :: "op list \<Rightarrow> TodoStore \<Rightarrow> int list" where
  "issued_ids [] store = []"
| "issued_ids (c # ops) store =
     (case apply_op c store of
        Inl e \<Rightarrow> issued_ids ops store
      | Inr (result, store') \<Rightarrow>
          (if is_create c then result_todo_id result else []) @ issued_ids ops store')"

fun run_ops :: "op list \<Rightarrow> TodoStore \<Rightarrow> TodoStore" where
  "run_ops [] store = store"
| "run_ops (c # ops) store =
     (case apply_op c store of
        Inl e \<Rightarrow> run_ops ops store
      | Inr (result, store') \<Rightarrow> run_ops ops store')"

section \<open>The schema translation on an explicit store\<close>

text \<open>
  \<open>convert_tool\<close> above says which value the translation returns. What the method
  reads and writes on the way is a matter of objects and references, so the same lines
  of \<^verbatim>\<open>convert_to_anthropic_tools\<close> are modelled once more over a store of objects.
\<close>

text \<open>
  A value is either immediate (\<^verbatim>\<open>None\<close>, a bool, a number, a string: all immutable) or a
  reference to an object of the store. The objects are the mutable ones: lists, dicts,
  and instances with their attributes. The store is the list of objects allocated so
  far; an address is an index into it, allocation appends, and a write replaces the
  object at an address.
\<close>

datatype hval = VNone | VBool bool | VInt int | VFloat real | VStr string | VRef nat

datatype hobj =
    HList "hval list"
  | HDict "(string \<times> hval) list"
  | HObject "(string \<times> hval) list"

type_synonym heap = "hobj list"

text \<open>
  Reading the store: the object a value refers to; \<^verbatim>\<open>hasattr\<close>, attribute access
  (\<^verbatim>\<open>AttributeError\<close> when the attribute is missing), \<^verbatim>\<open>isinstance(v, dict)\<close>,
  \<^verbatim>\<open>v.get(key, default)\<close>. Changing it: allocation of a new object, and
  \<^verbatim>\<open>lst.append(x)\<close>, the one write to an existing object that the method makes.
\<close>

definition obj_at :: "heap \<Rightarrow> hval \<Rightarrow> hobj option" where
  "obj_at h v = (case v of VRef a \<Rightarrow> (if a < length h then Some (h ! a) else None) | _ \<Rightarrow> None)"

definition alloc :: "hobj \<Rightarrow> heap \<Rightarrow> hval \<times> heap" where
  "alloc ob h = (VRef (length h), h @ [ob])"

definition py_hasattr :: "heap \<Rightarrow> hval \<Rightarrow> string \<Rightarrow> bool" where
  "py_hasattr h v attr =
     (case obj_at h v of Some (HObject attrs) \<Rightarrow> map_of attrs attr \<noteq> None | _ \<Rightarrow> False)"

definition py_getattr :: "heap \<Rightarrow> hval \<Rightarrow> string \<Rightarrow> exn + hval" where
  "py_getattr h v attr =
     (case obj_at h v of
        Some (HObject attrs) \<Rightarrow>
          (case map_of attrs attr of
             Some x \<Rightarrow> Inr x
           | None \<Rightarrow> Inl (no_attribute ''object'' attr))
      | _ \<Rightarrow> Inl (no_attribute ''object'' attr))"

definition py_isdict :: "heap \<Rightarrow> hval \<Rightarrow> bool" where
  "py_isdict h v = (case obj_at h v of Some (HDict kvs) \<Rightarrow> True | _ \<Rightarrow> False)"

definition store_get :: "heap \<Rightarrow> hval \<Rightarrow> string \<Rightarrow> hval \<Rightarrow> exn + hval" where
  "store_get h v key dflt =
     (case obj_at h v of
        Some (HDict kvs) \<Rightarrow> Inr (case map_of kvs key of Some x \<Rightarrow> x | None \<Rightarrow> dflt)
      | _ \<Rightarrow> Inl (no_attribute ''object'' ''get''))"

definition store_append :: "hval \<Rightarrow> hval \<Rightarrow> heap \<Rightarrow> exn + heap" where
  "store_append lst x h =
     (case lst of
        VRef l \<Rightarrow>
          (case obj_at h lst of
             Some (HList xs) \<Rightarrow> Inr (h[l := HList (xs @ [x])])
           | _ \<Rightarrow> Inl (no_attribute ''object'' ''append''))
      | _ \<Rightarrow> Inl (no_attribute ''object'' ''append''))"

text \<open>
  The body of the \<^verbatim>\<open>for\<close> loop with its allocations in the order Python makes them:
  the \<^verbatim>\<open>{}\<close> for \<^verbatim>\<open>params\<close> when the descriptor has no \<^verbatim>\<open>inputSchema\<close>; in each of
  the two conditional expressions either the default argument of \<^verbatim>\<open>get\<close> (built before
  the call, used or not) or the literal of the \<^verbatim>\<open>else\<close> branch; the inner dict; the
  outer dict. The values stored under \<^verbatim>\<open>name\<close>, \<^verbatim>\<open>description\<close>, \<^verbatim>\<open>properties\<close> and
  \<^verbatim>\<open>required\<close> are the descriptor's own values: a reference is copied, not the object
  it refers to.
\<close>

definition store_convert_tool :: "hval \<Rightarrow> heap \<Rightarrow> exn + hval \<times> heap" where
  "store_convert_tool t h =
     (let (params_r, h1) =
            (if py_hasattr h t ''inputSchema'' then (py_getattr h t ''inputSchema'', h)
             else (let (d, h') = alloc (HDict []) h in (Inr d, h')))
      in case params_r of
           Inl e \<Rightarrow> Inl e
         | Inr params \<Rightarrow>
      (case py_getattr h1 t ''name'' of
           Inl e \<Rightarrow> Inl e
         | Inr nm \<Rightarrow>
      (case (if py_hasattr h1 t ''description'' then py_getattr h1 t ''description''
             else Inr (VStr '''')) of
           Inl e \<Rightarrow> Inl e
         | Inr descr \<Rightarrow>
      (let (props_r, h2) =
             (if py_isdict h1 params
              then (let (d, h') = alloc (HDict []) h1 in (store_get h' params ''properties'' d, h'))
              else (let (d, h') = alloc (HDict []) h1 in (Inr d, h')))
       in case props_r of
            Inl e \<Rightarrow> Inl e
          | Inr props \<Rightarrow>
      (let (req_r, h3) =
             (if py_isdict h2 params
              then (let (d, h') = alloc (HList []) h2 in (store_get h' params ''required'' d, h'))
              else (let (d, h') = alloc (HList []) h2 in (Inr d, h')))
       in case req_r of
            Inl e \<Rightarrow> Inl e
          | Inr req \<Rightarrow>
      (let (input_schema, h4) =
             alloc (HDict [(''type'', VStr ''object''),
                           (''properties'', props),
                           (''required'', req)]) h3;
           (anthropic_tool, h5) =
             alloc (HDict [(''name'', nm),
                           (''description'', descr),
                           (''input_schema'', input_schema)]) h4
       in Inr (anthropic_tool, h5)))))))"

text \<open>
  The loop appends each definition to the list \<^verbatim>\<open>anthropic_tools\<close>; the method
  allocates that list first, reads \<^verbatim>\<open>self.mcp_client.available_tools\<close> (a list: \<^verbatim>\<open>[]\<close>
  from the constructor or the discovery call's \<^verbatim>\<open>response.tools\<close>), and returns the
  reference to the list it built. The elements of \<^verbatim>\<open>available_tools\<close> are read once,
  before the loop: the loop writes to no list but its own.
\<close>

fun store_convert_loop :: "hval list \<Rightarrow> hval \<Rightarrow> heap \<Rightarrow> exn + heap" where
  "store_convert_loop [] anthropic_tools h = Inr h"
| "store_convert_loop (t # rest) anthropic_tools h =
     (case store_convert_tool t h of
        Inl e \<Rightarrow> Inl e
      | Inr (anthropic_tool, h1) \<Rightarrow>
          (case store_append anthropic_tools anthropic_tool h1 of
             Inl e \<Rightarrow> Inl e
           | Inr h2 \<Rightarrow> store_convert_loop rest anthropic_tools h2))"

definition store_convert_to_anthropic_tools :: "hval \<Rightarrow> heap \<Rightarrow> exn + hval \<times> heap" where
  "store_convert_to_anthropic_tools self h =
     (let (anthropic_tools, h1) = alloc (HList []) h
      in case py_getattr h1 self ''mcp_client'' of
           Inl e \<Rightarrow> Inl e
         | Inr mcp \<Rightarrow>
             (case py_getattr h1 mcp ''available_tools'' of
                Inl e \<Rightarrow> Inl e
              | Inr available \<Rightarrow>
                  (case obj_at h1 available of
                     Some (HList ts) \<Rightarrow>
                       (case store_convert_loop ts anthropic_tools h1 of
                          Inl e \<Rightarrow> Inl e
                        | Inr h2 \<Rightarrow> Inr (anthropic_tools, h2))
                   | _ \<Rightarrow> Inl (Exception ''object is not iterable''))))"


section \<open>What the properties below speak about\<close>

text \<open>
  The tool definition that the specification asks of the translation for one
  descriptor, written from its words and not from the code: name and description
  copied, and each of the two schema fields as the parameter schema has it, or its
  empty default when the field is missing or the schema is not a mapping.
\<close>

definition spec_schema_field :: "tool \<Rightarrow> string \<Rightarrow> pyval \<Rightarrow> pyval" where
  "spec_schema_field t key dflt =
     (case inputSchema t of
        Some (PDict kvs) \<Rightarrow> (case map_of kvs key of Some v \<Rightarrow> v | None \<Rightarrow> dflt)
      | _ \<Rightarrow> dflt)"

definition spec_tool_definition :: "tool \<Rightarrow> pyval" where
  "spec_tool_definition t =
     PDict [(''name'', PStr (name t)),
            (''description'', (case description t of Some d \<Rightarrow> d | None \<Rightarrow> PStr '''')),
            (''input_schema'',
               PDict [(''type'', PStr ''object''),
                      (''properties'', spec_schema_field t ''properties'' (PDict [])),
                      (''required'', spec_schema_field t ''required'' (PList []))])]"

text \<open>
  Readings of a trace: the model calls in order, each with the conversation sent and the
  reply received, and the tool calls in order, each with the name and arguments sent.
\<close>

fun llm_rounds :: "event list \<Rightarrow> (message list \<times> (exn + block list)) list" where
  "llm_rounds [] = []"
| "llm_rounds (LLMCall ms response # evs) = (ms, response) # llm_rounds evs"
| "llm_rounds (ToolCall n a r # evs) = llm_rounds evs"

fun tool_rounds :: "event list \<Rightarrow> (string \<times> pyval) list" where
  "tool_rounds [] = []"
| "tool_rounds (LLMCall ms response # evs) = tool_rounds evs"
| "tool_rounds (ToolCall n a r # evs) = (n, a) # tool_rounds evs"

fun is_tool_result :: "message \<Rightarrow> bool" where
  "is_tool_result (ToolResultMessage i p e) = True"
| "is_tool_result m = False"

text \<open>
  \<open>answered before content after\<close>: the conversation \<open>after\<close> is the conversation
  \<open>before\<close>, then the assistant turn holding \<open>content\<close>, then nothing but tool results,
  one for each tool-use block of \<open>content\<close>, carrying the blocks' ids in the blocks'
  order. \<open>rounds_answered\<close> asks this of every model call that got a reply, \<open>after\<close>
  being the conversation sent with the next model call, or the final conversation when
  there is no next call.
\<close>

definition answered :: "message list \<Rightarrow> block list \<Rightarrow> message list \<Rightarrow> bool" where
  "answered before content after =
     (take (Suc (length before)) after = before @ [AssistantMessage content] \<and>
      (let results = drop (Suc (length before)) after
       in list_all is_tool_result results \<and>
          map tool_use_id results = map block_id (filter is_tool_use content)))"

fun rounds_answered :: "(message list \<times> (exn + block list)) list \<Rightarrow> message list \<Rightarrow> bool" where
  "rounds_answered [] final = True"
| "rounds_answered ((ms, response) # rest) final =
     ((case response of
         Inl e \<Rightarrow> True
       | Inr content \<Rightarrow>
           answered ms content (case rest of [] \<Rightarrow> final | (ms', response') # rest' \<Rightarrow> ms')) \<and>
      rounds_answered rest final)"

text \<open>A reply that asks for at least one tool call, so that the loop goes round again.\<close>

fun wants_tools :: "exn + block list \<Rightarrow> bool" where
  "wants_tools (Inl e) = False"
| "wants_tools (Inr content) = (filter is_tool_use content \<noteq> [])"

text \<open>
  The shape of a value in a store, relative to a boundary \<open>n0\<close>: an immediate value is
  a leaf, a reference below the boundary (an object that was there before) is kept as
  that reference, and a reference at or above it (an object allocated since) is opened
  up, to the given depth. Two results have the same shape when they are built alike
  from the same earlier objects, wherever their new objects lie.
\<close>

datatype shape =
    Leaf hval
  | Old nat
  | ListV "shape list"
  | DictV "(string \<times> shape) list"
  | ObjectV "(string \<times> shape) list"
  | Cut

fun shape_of :: "nat \<Rightarrow> nat \<Rightarrow> heap \<Rightarrow> hval \<Rightarrow> shape" where
  "shape_of n0 0 h v =
     (case v of VRef a \<Rightarrow> (if a < n0 then Old a else Cut) | _ \<Rightarrow> Leaf v)"
| "shape_of n0 (Suc k) h v =
     (case v of
        VRef a \<Rightarrow>
          (if a < n0 then Old a
           else (case obj_at h v of
                   None \<Rightarrow> Cut
                 | Some (HList xs) \<Rightarrow> ListV (map (\<lambda>x. shape_of n0 k h x) xs)
                 | Some (HDict kvs) \<Rightarrow> DictV (map (\<lambda>(key, x). (key, shape_of n0 k h x)) kvs)
                 | Some (HObject attrs) \<Rightarrow>
                     ObjectV (map (\<lambda>(key, x). (key, shape_of n0 k h x)) attrs)))
      | _ \<Rightarrow> Leaf v)"

text \<open>
  A store without dangling references, and a client whose
  \<^verbatim>\<open>mcp_client.available_tools\<close> is a list of objects that have a \<^verbatim>\<open>name\<close>.
\<close>

fun ref_ok :: "nat \<Rightarrow> hval \<Rightarrow> bool" where
  "ref_ok n (VRef a) = (a < n)"
| "ref_ok n v = True"

fun obj_ok :: "nat \<Rightarrow> hobj \<Rightarrow> bool" where
  "obj_ok n (HList xs) = list_all (ref_ok n) xs"
| "obj_ok n (HDict kvs) = list_all (\<lambda>kv. ref_ok n (snd kv)) kvs"
| "obj_ok n (HObject attrs) = list_all (\<lambda>kv. ref_ok n (snd kv)) attrs"

definition no_dangling :: "heap \<Rightarrow> bool" where
  "no_dangling h = list_all (obj_ok (length h)) h"

definition is_tool :: "heap \<Rightarrow> hval \<Rightarrow> bool" where
  "is_tool h t =
     (case obj_at h t of Some (HObject attrs) \<Rightarrow> map_of attrs ''name'' \<noteq> None | _ \<Rightarrow> False)"

definition tools_of :: "heap \<Rightarrow> hval \<Rightarrow> hval list option" where
  "tools_of h self =
     (case py_getattr h self ''mcp_client'' of
        Inl e \<Rightarrow> None
      | Inr mcp \<Rightarrow>
          (case py_getattr h mcp ''available_tools'' of
             Inl e \<Rightarrow> None
           | Inr available \<Rightarrow>
               (case obj_at h available of Some (HList ts) \<Rightarrow> Some ts | _ \<Rightarrow> None)))"

definition tools_ok :: "heap \<Rightarrow> hval \<Rightarrow> bool" where
  "tools_ok h self = (case tools_of h self of Some ts \<Rightarrow> list_all (is_tool h) ts | None \<Rightarrow> False)"


text \<open>
  The shape that the definition of one descriptor is expected to have, read from the
  descriptor's own object and its schema's object alone.
\<close>

definition leaf :: "hval \<Rightarrow> shape" where
  "leaf v = (case v of VRef a \<Rightarrow> Old a | _ \<Rightarrow> Leaf v)"

definition expected_field :: "heap \<Rightarrow> (string \<times> hval) list \<Rightarrow> string \<Rightarrow> shape \<Rightarrow> shape" where
  "expected_field h attrs key dflt =
     (case map_of attrs ''inputSchema'' of
        Some p \<Rightarrow>
          (case obj_at h p of
             Some (HDict kvs) \<Rightarrow> (case map_of kvs key of Some x \<Rightarrow> leaf x | None \<Rightarrow> dflt)
           | _ \<Rightarrow> dflt)
      | None \<Rightarrow> dflt)"

definition expected_tool :: "heap \<Rightarrow> hval \<Rightarrow> shape" where
  "expected_tool h t =
     (case obj_at h t of
        Some (HObject attrs) \<Rightarrow>
          (case map_of attrs ''name'' of
             Some nm \<Rightarrow>
               DictV [(''name'', leaf nm),
                      (''description'',
                         (case map_of attrs ''description'' of
                            Some d \<Rightarrow> leaf d
                          | None \<Rightarrow> Leaf (VStr ''''))),
                      (''input_schema'',
                         DictV [(''type'', Leaf (VStr ''object'')),
                                (''properties'', expected_field h attrs ''properties'' (DictV [])),
                                (''required'', expected_field h attrs ''required'' (ListV []))])]
           | None \<Rightarrow> Cut)
      | _ \<Rightarrow> Cut)"


text \<open>\<open>agree lo h1 g\<close>: the store \<open>g\<close> holds the objects of \<open>h1\<close> from address \<open>lo\<close> on.\<close>

definition agree :: "nat \<Rightarrow> heap \<Rightarrow> heap \<Rightarrow> bool" where
  "agree lo h1 g = (length h1 \<le> length g \<and> (\<forall>b. lo \<le> b \<and> b < length h1 \<longrightarrow> g ! b = h1 ! b))"


section \<open>Concrete runs\<close>

text \<open>
  A small world for running the definitions: the world state counts the model calls;
  the session answers \<^verbatim>\<open>create_todo\<close> with one text item, \<^verbatim>\<open>ping\<close> with an empty
  content list, \<^verbatim>\<open>noop\<close> with an object without content, and fails on every other
  tool with a connection reset.
\<close>

definition example_json :: json_module where
  "example_json =
     \<lparr>loads = (\<lambda>s. if s = ''[1]'' then Inr (PList [PInt 1])
                    else Inl (Exception ''Expecting value'')),
      dumps = (\<lambda>v. if v = PDict [] then ''{}'' else ''[1]'')\<rparr>"

definition example_tools :: "tool list" where
  "example_tools =
     [\<lparr>name = ''create_todo'', description = Some (PStr ''Add a new task''),
       inputSchema =
         Some (PDict [(''properties'', PDict [(''title'', PDict [(''type'', PStr ''string'')])]),
                      (''required'', PList [PStr ''title''])])\<rparr>,
      \<lparr>name = ''list_todos'', description = Some PNone,
       inputSchema = Some (PDict [(''type'', PStr ''object'')])\<rparr>,
      \<lparr>name = ''ping'', description = None, inputSchema = Some PNone\<rparr>,
      \<lparr>name = ''noop'', description = None, inputSchema = None\<rparr>]"

definition example_session :: "nat session_t" where
  "example_session w tool_name arguments =
     (if tool_name = ''create_todo'' then Inr (CallToolResult (Some [TextContent ''[1]'']))
      else if tool_name = ''ping'' then Inr (CallToolResult (Some []))
      else if tool_name = ''noop'' then Inr (CallToolResult None)
      else Inl (Exception ''Connection reset''), w)"

definition example_client :: "nat anthropic_t \<Rightarrow> nat TodoChatClient" where
  "example_client model =
     \<lparr>mcp_client = \<lparr>session = Some example_session, available_tools = example_tools\<rparr>,
      anthropic_client = model, conversation_history = [], debug = False\<rparr>"

text \<open>
  Four models: one that asks for two tools and then answers, one that asks for a tool on
  every call, one whose call raises a given exception, and one that replies with no
  content block at all.
\<close>

definition scripted_model :: "nat anthropic_t" where
  "scripted_model w ms tools =
     (if w = 0 then
        Inr [TextBlock ''Adding it.'',
             ToolUseBlock ''toolu_1'' ''create_todo'' (PDict [(''title'', PStr ''buy milk'')]),
             ToolUseBlock ''toolu_2'' ''list_todos'' (PDict [])]
      else Inr [TextBlock ''Added buy milk.'', TextBlock ''Anything else?''], Suc w)"

definition greedy_model :: "nat anthropic_t" where
  "greedy_model w ms tools = (Inr [ToolUseBlock ''toolu'' ''create_todo'' (PDict [])], Suc w)"


definition silent_model :: "nat anthropic_t" where
  "silent_model w ms tools = (Inr [], Suc w)"

definition example_run :: "nat run" where
  "example_run = \<lparr>world = 1, messages = [UserMessage ''hello''], trace = []\<rparr>"

definition example_ops :: "op list" where
  "example_ops =
     [Create ''a'' '''' ''low'' ''t0'',
      Create ''b'' '''' ''medium'' ''t1'',
      Delete 2,
      Delete 1,
      ListTodos ''all'',
      Create ''c'' ''again'' ''high'' ''t2'',
      Update 3 None None None (Some True) ''t3'',
      Delete 7]"

text \<open>
  A store with a chat client (address 0), its MCP client (1), the list of three tool
  descriptors (2; the descriptors at 3, 4, 5) and their schemas: a schema with both
  fields (6, with the properties dict at 7 and the required list at 8), a schema with
  neither (9), and a descriptor without \<^verbatim>\<open>description\<close> and \<^verbatim>\<open>inputSchema\<close>.
\<close>

definition ex_heap :: heap where
  "ex_heap =
     [HObject [(''mcp_client'', VRef 1), (''debug'', VBool False)],
      HObject [(''session'', VNone), (''available_tools'', VRef 2)],
      HList [VRef 3, VRef 4, VRef 5],
      HObject [(''name'', VStr ''create_todo''), (''description'', VStr ''Add a new task''),
               (''inputSchema'', VRef 6)],
      HObject [(''name'', VStr ''list_todos''), (''description'', VNone),
               (''inputSchema'', VRef 9)],
      HObject [(''name'', VStr ''ping'')],
      HDict [(''properties'', VRef 7), (''required'', VRef 8)],
      HDict [(''title'', VStr ''string'')],
      HList [VStr ''title''],
      HDict [(''type'', VStr ''object'')]]"

section \<open>Auxiliary facts\<close>

subsection \<open>Schema translation\<close>

lemma convert_tool_eq: "convert_tool t = Inr (spec_tool_definition t)"
  by (cases "inputSchema t"; cases "the (inputSchema t)")
     (auto simp: convert_tool_def spec_tool_definition_def spec_schema_field_def Let_def)

lemma convert_loop_eq: "convert_loop ts acc = Inr (acc @ map spec_tool_definition ts)"
  by (induction ts arbitrary: acc) (auto simp: convert_tool_eq)

lemma convert_eq:
  "convert_to_anthropic_tools self =
     (Inr (map spec_tool_definition (available_tools (mcp_client self))), self)"
  by (simp add: convert_to_anthropic_tools_def convert_loop_eq)

subsection \<open>Tool execution\<close>

lemma llm_rounds_append: "llm_rounds (xs @ ys) = llm_rounds xs @ llm_rounds ys"
  by (induction xs rule: llm_rounds.induct) auto

lemma tool_rounds_append: "tool_rounds (xs @ ys) = tool_rounds xs @ tool_rounds ys"
  by (induction xs rule: tool_rounds.induct) auto

lemma call_tool_effect:
  assumes "call_tool c nm args st = (r, st')"
  shows "messages st' = messages st"
    and "\<exists>evs. trace st' = trace st @ evs \<and> llm_rounds evs = [] \<and>
           tool_rounds evs = (if session c = None then [] else [(nm, args)])"
  using assms by (auto simp: call_tool_def Let_def split: option.splits prod.splits)

lemma execute_tool_call_effect:
  "\<exists>r evs. messages (execute_tool_call json self tc st) = messages st @ [r] \<and>
      is_tool_result r \<and> tool_use_id r = block_id tc \<and>
      trace (execute_tool_call json self tc st) = trace st @ evs \<and> llm_rounds evs = [] \<and>
      tool_rounds evs =
        (if session (mcp_client self) = None then [] else [(block_name tc, block_input tc)])"
proof -
  obtain r st' where c: "call_tool (mcp_client self) (block_name tc) (block_input tc) st = (r, st')"
    by (cases "call_tool (mcp_client self) (block_name tc) (block_input tc) st")
  from call_tool_effect[OF c] obtain evs where
    e: "messages st' = messages st" "trace st' = trace st @ evs" "llm_rounds evs = []"
       "tool_rounds evs =
          (if session (mcp_client self) = None then [] else [(block_name tc, block_input tc)])"
    by blast
  show ?thesis using c e
    by (auto simp: execute_tool_call_def Let_def error_result_def split: sum.splits)
qed

lemma execute_tool_calls_effect:
  "\<exists>rs evs. messages (execute_tool_calls json self tcs st) = messages st @ rs \<and>
      list_all is_tool_result rs \<and> map tool_use_id rs = map block_id tcs \<and>
      trace (execute_tool_calls json self tcs st) = trace st @ evs \<and> llm_rounds evs = []"
proof (induction tcs arbitrary: st)
  case Nil
  then show ?case by simp
next
  case (Cons tc tcs)
  obtain r evs where a: "messages (execute_tool_call json self tc st) = messages st @ [r]"
      "is_tool_result r" "tool_use_id r = block_id tc"
      "trace (execute_tool_call json self tc st) = trace st @ evs" "llm_rounds evs = []"
    using execute_tool_call_effect by blast
  obtain rs evs' where b:
      "messages (execute_tool_calls json self tcs (execute_tool_call json self tc st)) =
         messages (execute_tool_call json self tc st) @ rs"
      "list_all is_tool_result rs" "map tool_use_id rs = map block_id tcs"
      "trace (execute_tool_calls json self tcs (execute_tool_call json self tc st)) =
         trace (execute_tool_call json self tc st) @ evs'" "llm_rounds evs' = []"
    using Cons.IH by blast
  show ?case
    apply (rule exI[of _ "r # rs"])
    apply (rule exI[of _ "evs @ evs'"])
    using a b by (simp add: llm_rounds_append)
qed

text \<open>
  What \<open>answered\<close> says id by id: among the results that follow the assistant turn, an
  id occurs as often as among the turn's tool-use blocks; once, when the blocks' ids
  are distinct.
\<close>

lemma answered_counts:
  assumes "answered before content after"
  shows "length (filter (\<lambda>m. tool_use_id m = i) (drop (Suc (length before)) after)) =
         length (filter (\<lambda>b. block_id b = i) (filter is_tool_use content))"
proof -
  have "map tool_use_id (drop (Suc (length before)) after) =
        map block_id (filter is_tool_use content)"
    using assms by (simp add: answered_def Let_def)
  then have "length (filter (\<lambda>x. x = i) (map tool_use_id (drop (Suc (length before)) after))) =
             length (filter (\<lambda>x. x = i) (map block_id (filter is_tool_use content)))"
    by simp
  then show ?thesis
    by (simp add: filter_map comp_def)
qed

subsection \<open>One pass of the loop\<close>

lemma step_error:
  "anthropic_client self (world st) (messages st) tools = (Inl e, w') \<Longrightarrow>
   run_iterations json self tools (Suc n) st =
     (handle_api_error e,
      st\<lparr>world := w', trace := trace st @ [LLMCall (messages st) (Inl e)]\<rparr>)"
  by simp

lemma step_final:
  "anthropic_client self (world st) (messages st) tools = (Inr content, w') \<Longrightarrow>
   filter is_tool_use content = [] \<Longrightarrow>
   run_iterations json self tools (Suc n) st =
     ((case filter is_text content of
         b # bs \<Rightarrow> block_text b
       | [] \<Rightarrow> ''I completed the task.''),
      st\<lparr>world := w', trace := trace st @ [LLMCall (messages st) (Inr content)],
         messages := messages st @ [AssistantMessage content]\<rparr>)"
  by (simp split: list.splits)

lemma step_tools:
  "anthropic_client self (world st) (messages st) tools = (Inr content, w') \<Longrightarrow>
   filter is_tool_use content \<noteq> [] \<Longrightarrow>
   run_iterations json self tools (Suc n) st =
     run_iterations json self tools n
       (execute_tool_calls json self (filter is_tool_use content)
          (st\<lparr>world := w', trace := trace st @ [LLMCall (messages st) (Inr content)],
              messages := messages st @ [AssistantMessage content]\<rparr>))"
  by simp

lemma step_cases:
  obtains (error) e w' where
      "anthropic_client self (world st) (messages st) tools = (Inl e, w')"
  | (final) content w' where
      "anthropic_client self (world st) (messages st) tools = (Inr content, w')"
      "filter is_tool_use content = []"
  | (tools) content w' where
      "anthropic_client self (world st) (messages st) tools = (Inr content, w')"
      "filter is_tool_use content \<noteq> []"
proof (cases "anthropic_client self (world st) (messages st) tools")
  case (Pair r w')
  then show ?thesis using that by (cases r) blast+
qed

declare run_iterations.simps(2) [simp del]

subsection \<open>Invariants of the loop\<close>

text \<open>
  Both invariants speak about the model calls a run adds to the trace it starts from.
  The first: every reply is answered, and the first added call was sent the starting
  conversation (when no call is added the conversation is unchanged).
\<close>

lemma rounds_inv:
  "\<exists>new. llm_rounds (trace (snd (run_iterations json self tools n st))) =
            llm_rounds (trace st) @ new \<and>
         rounds_answered new (messages (snd (run_iterations json self tools n st))) \<and>
         (case new of
            [] \<Rightarrow> messages (snd (run_iterations json self tools n st)) = messages st
          | (ms, response) # rest \<Rightarrow> ms = messages st)"
proof (induction n arbitrary: st)
  case 0
  show ?case by (rule exI[of _ "[]"]) simp
next
  case (Suc n)
  show ?case
  proof (cases rule: step_cases[of self st tools])
    case (error e w')
    show ?thesis
      by (rule exI[of _ "[(messages st, Inl e)]"])
         (simp add: step_error[OF error] llm_rounds_append)
  next
    case (final content w')
    show ?thesis
      by (rule exI[of _ "[(messages st, Inr content)]"])
         (simp add: step_final[OF final] llm_rounds_append answered_def final(2))
  next
    case (tools content w')
    define st2 where
      "st2 = st\<lparr>world := w', trace := trace st @ [LLMCall (messages st) (Inr content)],
                messages := messages st @ [AssistantMessage content]\<rparr>"
    define st3 where "st3 = execute_tool_calls json self (filter is_tool_use content) st2"
    have run: "run_iterations json self tools (Suc n) st = run_iterations json self tools n st3"
      unfolding st3_def st2_def by (rule step_tools[OF tools])
    obtain rs evs where ex: "messages st3 = messages st2 @ rs" "list_all is_tool_result rs"
        "map tool_use_id rs = map block_id (filter is_tool_use content)"
        "trace st3 = trace st2 @ evs" "llm_rounds evs = []"
      unfolding st3_def using execute_tool_calls_effect by blast
    have m3: "messages st3 = messages st @ [AssistantMessage content] @ rs"
      using ex(1) by (simp add: st2_def)
    have t3: "llm_rounds (trace st3) = llm_rounds (trace st) @ [(messages st, Inr content)]"
      using ex(4,5) by (simp add: st2_def llm_rounds_append)
    have ans: "answered (messages st) content (messages st3)"
      using m3 ex(2,3) by (simp add: answered_def)
    obtain new where new:
         "llm_rounds (trace (snd (run_iterations json self tools n st3))) =
            llm_rounds (trace st3) @ new"
         "rounds_answered new (messages (snd (run_iterations json self tools n st3)))"
         "(case new of
             [] \<Rightarrow> messages (snd (run_iterations json self tools n st3)) = messages st3
           | (ms, response) # rest \<Rightarrow> ms = messages st3)"
      using Suc.IH[of st3] by blast
    have nxt: "(case new of [] \<Rightarrow> messages (snd (run_iterations json self tools n st3))
                 | (ms', response') # rest' \<Rightarrow> ms') = messages st3"
      using new(3) by (auto split: list.splits)
    show ?thesis
      apply (rule exI[of _ "(messages st, Inr content) # new"])
      using new(1,2) t3 ans nxt by (simp add: run)
  qed
qed

text \<open>
  The second: a run of \<open>n\<close> passes adds at most \<open>n\<close> model calls; when it adds \<open>n\<close> and
  every reply asked for tools, the answer is the fixed message; a call that raised
  decides the answer; and a reply without tool calls is the last call and decides the
  answer.
\<close>

lemma cap_inv:
  "\<exists>new. llm_rounds (trace (snd (run_iterations json self tools n st))) =
            llm_rounds (trace st) @ new \<and>
         length new \<le> n \<and>
         (length new = n \<and> list_all (\<lambda>r. wants_tools (snd r)) new \<longrightarrow>
            fst (run_iterations json self tools n st) = cap_message) \<and>
         (\<forall>ms e. (ms, Inl e) \<in> set new \<longrightarrow>
            fst (run_iterations json self tools n st) = handle_api_error e) \<and>
         (\<forall>ms c. (ms, Inr c) \<in> set new \<and> filter is_tool_use c = [] \<longrightarrow>
            fst (run_iterations json self tools n st) =
              (case filter is_text c of b # bs \<Rightarrow> block_text b | [] \<Rightarrow> ''I completed the task.'') \<and>
            last new = (ms, Inr c))"
proof (induction n arbitrary: st)
  case 0
  show ?case by (rule exI[of _ "[]"]) simp
next
  case (Suc n)
  show ?case
  proof (cases rule: step_cases[of self st tools])
    case (error e w')
    show ?thesis
      by (rule exI[of _ "[(messages st, Inl e)]"])
         (simp add: step_error[OF error] llm_rounds_append)
  next
    case (final content w')
    show ?thesis
      by (rule exI[of _ "[(messages st, Inr content)]"])
         (simp add: step_final[OF final] llm_rounds_append final(2))
  next
    case (tools content w')
    define st2 where
      "st2 = st\<lparr>world := w', trace := trace st @ [LLMCall (messages st) (Inr content)],
                messages := messages st @ [AssistantMessage content]\<rparr>"
    define st3 where "st3 = execute_tool_calls json self (filter is_tool_use content) st2"
    have run: "run_iterations json self tools (Suc n) st = run_iterations json self tools n st3"
      unfolding st3_def st2_def by (rule step_tools[OF tools])
    obtain rs evs where ex: "messages st3 = messages st2 @ rs"
        "trace st3 = trace st2 @ evs" "llm_rounds evs = []"
      unfolding st3_def using execute_tool_calls_effect by blast
    have t3: "llm_rounds (trace st3) = llm_rounds (trace st) @ [(messages st, Inr content)]"
      using ex(2,3) by (simp add: st2_def llm_rounds_append)
    obtain new where new:
         "llm_rounds (trace (snd (run_iterations json self tools n st3))) =
            llm_rounds (trace st3) @ new"
         "length new \<le> n"
         "length new = n \<and> list_all (\<lambda>r. wants_tools (snd r)) new \<longrightarrow>
            fst (run_iterations json self tools n st3) = cap_message"
         "\<forall>ms e. (ms, Inl e) \<in> set new \<longrightarrow>
            fst (run_iterations json self tools n st3) = handle_api_error e"
         "\<forall>ms c. (ms, Inr c) \<in> set new \<and> filter is_tool_use c = [] \<longrightarrow>
            fst (run_iterations json self tools n st3) =
              (case filter is_text c of b # bs \<Rightarrow> block_text b | [] \<Rightarrow> ''I completed the task.'') \<and>
            last new = (ms, Inr c)"
      using Suc.IH[of st3] by blast
    have a: "llm_rounds (trace (snd (run_iterations json self tools (Suc n) st))) =
            llm_rounds (trace st) @ (messages st, Inr content) # new"
      using new(1) t3 by (simp add: run)
    have b: "length ((messages st, Inr content) # new) \<le> Suc n"
      using new(2) by simp
    have c: "length ((messages st, Inr content) # new) = Suc n \<and>
             list_all (\<lambda>r. wants_tools (snd r)) ((messages st, Inr content) # new) \<longrightarrow>
             fst (run_iterations json self tools (Suc n) st) = cap_message"
      using new(3) by (simp add: run)
    have d: "\<forall>ms e. (ms, Inl e) \<in> set ((messages st, Inr content) # new) \<longrightarrow>
             fst (run_iterations json self tools (Suc n) st) = handle_api_error e"
      using new(4) by (simp add: run)
    have e: "\<forall>ms c. (ms, Inr c) \<in> set ((messages st, Inr content) # new) \<and>
               filter is_tool_use c = [] \<longrightarrow>
             fst (run_iterations json self tools (Suc n) st) =
               (case filter is_text c of b # bs \<Rightarrow> block_text b | [] \<Rightarrow> ''I completed the task.'') \<and>
             last ((messages st, Inr content) # new) = (ms, Inr c)"
    proof (intro allI impI)
      fix ms c
      assume h: "(ms, Inr c) \<in> set ((messages st, Inr content) # new) \<and> filter is_tool_use c = []"
      with tools(2) have m: "(ms, Inr c) \<in> set new" by auto
      then have ne: "new \<noteq> []" by auto
      from new(5) m h ne show
        "fst (run_iterations json self tools (Suc n) st) =
           (case filter is_text c of b # bs \<Rightarrow> block_text b | [] \<Rightarrow> ''I completed the task.'') \<and>
         last ((messages st, Inr content) # new) = (ms, Inr c)"
        by (simp add: run)
    qed
    show ?thesis
      by (rule exI[of _ "(messages st, Inr content) # new"]) (intro conjI a b c d e)
  qed
qed

lemma process_eq:
  "process_with_llm json self user_input w =
     (Inr (fst (run_iterations json self (map spec_tool_definition (available_tools (mcp_client self)))
                  max_iterations \<lparr>world = w, messages = [UserMessage user_input], trace = []\<rparr>)),
      snd (run_iterations json self (map spec_tool_definition (available_tools (mcp_client self)))
             max_iterations \<lparr>world = w, messages = [UserMessage user_input], trace = []\<rparr>))"
  by (simp add: process_with_llm_def convert_eq split: prod.splits)

lemma process_inv:
  "length (llm_rounds (trace (snd (process_with_llm json self user_input w)))) \<le> max_iterations \<and>
   (length (llm_rounds (trace (snd (process_with_llm json self user_input w)))) = max_iterations \<and>
    list_all (\<lambda>r. wants_tools (snd r))
      (llm_rounds (trace (snd (process_with_llm json self user_input w)))) \<longrightarrow>
      fst (process_with_llm json self user_input w) = Inr cap_message) \<and>
   (\<forall>ms e. (ms, Inl e) \<in> set (llm_rounds (trace (snd (process_with_llm json self user_input w)))) \<longrightarrow>
      fst (process_with_llm json self user_input w) = Inr (handle_api_error e)) \<and>
   (\<forall>ms c. (ms, Inr c) \<in> set (llm_rounds (trace (snd (process_with_llm json self user_input w)))) \<and>
       filter is_tool_use c = [] \<longrightarrow>
      fst (process_with_llm json self user_input w) =
        Inr (case filter is_text c of b # bs \<Rightarrow> block_text b | [] \<Rightarrow> ''I completed the task.'') \<and>
      last (llm_rounds (trace (snd (process_with_llm json self user_input w)))) = (ms, Inr c))"
  using cap_inv[of json self "map spec_tool_definition (available_tools (mcp_client self))"
      max_iterations "\<lparr>world = w, messages = [UserMessage user_input], trace = []\<rparr>"]
  by (auto simp: process_eq)

subsection \<open>The task store\<close>

lemma apply_op_next:
  "apply_op c s = Inr (r, s') \<Longrightarrow>
     (if is_create c then result_todo_id r = [next_id s] \<and> next_id s' = next_id s + 1
      else next_id s' = next_id s)"
  by (cases c)
     (auto simp: create_todo_def get_next_id_def Let_def list_todos_def update_todo_def
        delete_todo_def py_getitem_def split: sum.splits option.splits if_splits)

lemma apply_op_raises: "apply_op c s = Inl e \<Longrightarrow> \<not> is_create c"
  by (cases c) auto

lemma issued_ids_step:
  "apply_op c s = Inr (r, s') \<Longrightarrow>
   issued_ids (c # ops) s = (if is_create c then [next_id s] else []) @ issued_ids ops s'"
  using apply_op_next[of c s r s'] by (auto split: if_splits)

lemma issued_lower: "i \<in> set (issued_ids ops s) \<Longrightarrow> next_id s \<le> i"
proof (induction ops arbitrary: s)
  case Nil
  then show ?case by simp
next
  case (Cons c ops)
  show ?case
  proof (cases "apply_op c s")
    case (Inl e)
    with Cons show ?thesis by simp
  next
    case (Inr p)
    obtain r s' where p: "apply_op c s = Inr (r, s')" using Inr by (cases p) simp
    have n: "next_id s \<le> next_id s'"
      using apply_op_next[OF p] by (auto split: if_splits)
    from Cons.prems have "i = next_id s \<or> i \<in> set (issued_ids ops s')"
      unfolding issued_ids_step[OF p] by (auto split: if_splits)
    then show ?thesis using Cons.IH[of s'] n by auto
  qed
qed

subsection \<open>The translation on the store\<close>

lemma shape_of_old: "ref_ok n0 v \<Longrightarrow> shape_of n0 k g v = leaf v"
  by (cases k; cases v) (auto simp: leaf_def)

lemma obj_at_append_old:
  "obj_at h v = Some ob \<Longrightarrow> obj_at (h @ ext) v = Some ob"
  by (auto simp: obj_at_def nth_append split: hval.splits if_splits)

lemma obj_at_old_ref: "obj_at h v = Some ob \<Longrightarrow> ref_ok (length h) v"
  by (auto simp: obj_at_def split: hval.splits if_splits)

lemma no_dangling_obj:
  assumes "no_dangling h" "obj_at h v = Some ob"
  shows "obj_ok (length h) ob"
  using assms by (auto simp: no_dangling_def obj_at_def list_all_length split: hval.splits if_splits)

lemma no_dangling_attr:
  assumes "no_dangling h" "obj_at h v = Some (HObject attrs)" "map_of attrs a = Some x"
  shows "ref_ok (length h) x"
  using no_dangling_obj[OF assms(1,2)] map_of_SomeD[OF assms(3)]
  by (auto simp: list_all_iff)

lemma no_dangling_entry:
  assumes "no_dangling h" "obj_at h v = Some (HDict kvs)" "map_of kvs a = Some x"
  shows "ref_ok (length h) x"
  using no_dangling_obj[OF assms(1,2)] map_of_SomeD[OF assms(3)]
  by (auto simp: list_all_iff)

lemma agree_obj: "agree lo h1 g \<Longrightarrow> lo \<le> b \<Longrightarrow> b < length h1 \<Longrightarrow> obj_at g (VRef b) = Some (h1 ! b)"
  by (auto simp: agree_def obj_at_def)

lemma shape_of_dict:
  "\<not> a < n0 \<Longrightarrow> obj_at g (VRef a) = Some (HDict kvs) \<Longrightarrow>
   shape_of n0 (Suc k) g (VRef a) = DictV (map (\<lambda>(key, x). (key, shape_of n0 k g x)) kvs)"
  by simp

lemma shape_of_list:
  "\<not> a < n0 \<Longrightarrow> obj_at g (VRef a) = Some (HList xs) \<Longrightarrow>
   shape_of n0 (Suc k) g (VRef a) = ListV (map (\<lambda>x. shape_of n0 k g x) xs)"
  by simp

declare shape_of.simps [simp del]

lemma convert_tool_store:
  assumes cl: "no_dangling h0" and tl: "is_tool h0 t"
  shows "\<exists>out new. store_convert_tool t (h0 @ ext) = Inr (VRef out, h0 @ ext @ new) \<and>
           length (h0 @ ext) \<le> out \<and> out < length (h0 @ ext @ new) \<and>
           (\<forall>g k. agree (length (h0 @ ext)) (h0 @ ext @ new) g \<longrightarrow>
              shape_of (length h0) (Suc (Suc (Suc k))) g (VRef out) = expected_tool h0 t)"
proof -
  let ?h = "h0 @ ext"
  let ?n = "length ?h"
  obtain attrs nm where t0: "obj_at h0 t = Some (HObject attrs)" and nm: "map_of attrs ''name'' = Some nm"
    using tl by (auto simp: is_tool_def split: option.splits hobj.splits)
  have t: "obj_at ?h t = Some (HObject attrs)"
    using t0 by (rule obj_at_append_old)
  have t': "\<And>x. obj_at (?h @ [x]) t = Some (HObject attrs)"
    using obj_at_append_old[OF t] by simp
  have nm_ok: "ref_ok (length h0) nm"
    using no_dangling_attr[OF cl t0 nm] .
  define descr where "descr = (case map_of attrs ''description'' of Some d \<Rightarrow> d | None \<Rightarrow> VStr '''')"
  have descr_ok: "ref_ok (length h0) descr"
    using no_dangling_attr[OF cl t0] by (auto simp: descr_def split: option.splits)
  have descr_leaf: "leaf descr = (case map_of attrs ''description'' of Some d \<Rightarrow> leaf d | None \<Rightarrow> Leaf (VStr ''''))"
    by (auto simp: descr_def leaf_def split: option.splits)
  show ?thesis
  proof (cases "map_of attrs ''inputSchema''")
    case None
    define inner where "inner = HDict [(''type'', VStr ''object''), (''properties'', VRef (Suc ?n)),
                             (''required'', VRef (Suc (Suc ?n)))]"
    define outer where "outer = HDict [(''name'', nm), (''description'', descr),
                             (''input_schema'', VRef (Suc (Suc (Suc ?n))))]"
    define new where "new = [HDict [], HDict [], HList [], inner, outer]"
    have r: "store_convert_tool t ?h = Inr (VRef (Suc (Suc (Suc (Suc ?n)))), ?h @ new)"
      using t t' nm None
      by (simp add: store_convert_tool_def py_hasattr_def py_getattr_def alloc_def py_isdict_def
            store_get_def obj_at_def nth_append new_def inner_def outer_def descr_def
            split: option.splits)
    have s: "shape_of (length h0) (Suc (Suc (Suc k))) g (VRef (Suc (Suc (Suc (Suc ?n))))) = expected_tool h0 t"
      if ag: "agree ?n (?h @ new) g" for g k
    proof -
      have ob: "obj_at g (VRef (Suc (Suc (Suc (Suc ?n))))) = Some outer"
        using agree_obj[OF ag, of "Suc (Suc (Suc (Suc ?n)))"] by (simp add: new_def nth_append)
      have i: "obj_at g (VRef (Suc (Suc (Suc ?n)))) = Some inner"
        using agree_obj[OF ag, of "Suc (Suc (Suc ?n))"] by (simp add: new_def nth_append)
      have p: "obj_at g (VRef (Suc ?n)) = Some (HDict [])"
        using agree_obj[OF ag, of "Suc ?n"] by (simp add: new_def nth_append)
      have q: "obj_at g (VRef (Suc (Suc ?n))) = Some (HList [])"
        using agree_obj[OF ag, of "Suc (Suc ?n)"] by (simp add: new_def nth_append)
      have fr: "\<not> Suc (Suc (Suc (Suc ?n))) < length h0" "\<not> Suc (Suc (Suc ?n)) < length h0"
          "\<not> Suc (Suc ?n) < length h0" "\<not> Suc ?n < length h0"
        by simp_all
      have s3: "shape_of (length h0) (Suc k) g (VRef (Suc ?n)) = DictV []"
        unfolding shape_of_dict[OF fr(4) p] by simp
      have s4: "shape_of (length h0) (Suc k) g (VRef (Suc (Suc ?n))) = ListV []"
        unfolding shape_of_list[OF fr(3) q] by simp
      have s2: "shape_of (length h0) (Suc (Suc k)) g (VRef (Suc (Suc (Suc ?n)))) =
                  DictV [(''type'', Leaf (VStr ''object'')), (''properties'', DictV []),
                         (''required'', ListV [])]"
        unfolding shape_of_dict[OF fr(2) i[unfolded inner_def]] using s3 s4
        by (simp add: shape_of_old leaf_def)
      have s1: "shape_of (length h0) (Suc (Suc (Suc k))) g (VRef (Suc (Suc (Suc (Suc ?n))))) =
                  DictV [(''name'', leaf nm), (''description'', leaf descr),
                         (''input_schema'',
                            DictV [(''type'', Leaf (VStr ''object'')), (''properties'', DictV []),
                                   (''required'', ListV [])])]"
        unfolding shape_of_dict[OF fr(1) ob[unfolded outer_def]] using s2
        by (simp add: shape_of_old[OF nm_ok] shape_of_old[OF descr_ok])
      show ?thesis
        unfolding s1 using t0 nm None descr_leaf
        by (simp add: expected_tool_def expected_field_def)
    qed
    show ?thesis
      apply (rule exI[of _ "Suc (Suc (Suc (Suc ?n)))"])
      apply (rule exI[of _ new])
      using r s by (simp add: new_def)
  next
    case (Some p)
    define props where "props = (case obj_at h0 p of
        Some (HDict kvs) \<Rightarrow> (case map_of kvs ''properties'' of Some x \<Rightarrow> x | None \<Rightarrow> VRef ?n)
      | _ \<Rightarrow> VRef ?n)"
    define req where "req = (case obj_at h0 p of
        Some (HDict kvs) \<Rightarrow> (case map_of kvs ''required'' of Some x \<Rightarrow> x | None \<Rightarrow> VRef (Suc ?n))
      | _ \<Rightarrow> VRef (Suc ?n))"
    define inner where "inner = HDict [(''type'', VStr ''object''), (''properties'', props),
                             (''required'', req)]"
    define outer where "outer = HDict [(''name'', nm), (''description'', descr),
                             (''input_schema'', VRef (Suc (Suc ?n)))]"
    define new where "new = [HDict [], HList [], inner, outer]"
    have p_ok: "ref_ok (length h0) p"
      using no_dangling_attr[OF cl t0 Some] .
    have p_at: "obj_at (h0 @ xs) p = obj_at h0 p" for xs
      using p_ok by (cases p) (auto simp: obj_at_def nth_append)
    have r: "store_convert_tool t ?h = Inr (VRef (Suc (Suc (Suc ?n))), ?h @ new)"
      using t t' nm Some p_at[of ext] p_at[of "ext @ [HDict []]"] p_at[of "ext @ [HDict [], HList []]"]
      by (simp add: store_convert_tool_def py_hasattr_def py_getattr_def alloc_def py_isdict_def
            store_get_def new_def inner_def outer_def descr_def props_def req_def
            split: option.splits hobj.splits)
    have s: "shape_of (length h0) (Suc (Suc (Suc k))) g (VRef (Suc (Suc (Suc ?n)))) = expected_tool h0 t"
      if ag: "agree ?n (?h @ new) g" for g k
    proof -
      have ob: "obj_at g (VRef (Suc (Suc (Suc ?n)))) = Some outer"
        using agree_obj[OF ag, of "Suc (Suc (Suc ?n))"] by (simp add: new_def nth_append)
      have i: "obj_at g (VRef (Suc (Suc ?n))) = Some inner"
        using agree_obj[OF ag, of "Suc (Suc ?n)"] by (simp add: new_def nth_append)
      have pd: "obj_at g (VRef ?n) = Some (HDict [])"
        using agree_obj[OF ag, of "?n"] by (simp add: new_def nth_append)
      have qd: "obj_at g (VRef (Suc ?n)) = Some (HList [])"
        using agree_obj[OF ag, of "Suc ?n"] by (simp add: new_def nth_append)
      have fresh: "\<not> ?n < length h0" "\<not> Suc ?n < length h0" by simp_all
      have sp: "shape_of (length h0) (Suc k) g props = expected_field h0 attrs ''properties'' (DictV [])"
        using Some pd fresh no_dangling_entry[OF cl, of p]
        by (auto simp: props_def expected_field_def shape_of_old shape_of_dict
              split: option.splits hobj.splits)
      have sq: "shape_of (length h0) (Suc k) g req = expected_field h0 attrs ''required'' (ListV [])"
        using Some qd fresh no_dangling_entry[OF cl, of p]
        by (auto simp: req_def expected_field_def shape_of_old shape_of_list
              split: option.splits hobj.splits)
      have fr2: "\<not> Suc (Suc (Suc ?n)) < length h0" "\<not> Suc (Suc ?n) < length h0"
        by simp_all
      have s2: "shape_of (length h0) (Suc (Suc k)) g (VRef (Suc (Suc ?n))) =
                  DictV [(''type'', Leaf (VStr ''object'')),
                         (''properties'', expected_field h0 attrs ''properties'' (DictV [])),
                         (''required'', expected_field h0 attrs ''required'' (ListV []))]"
        unfolding shape_of_dict[OF fr2(2) i[unfolded inner_def]] using sp sq
        by (simp add: shape_of_old leaf_def)
      have s1: "shape_of (length h0) (Suc (Suc (Suc k))) g (VRef (Suc (Suc (Suc ?n)))) =
                  DictV [(''name'', leaf nm), (''description'', leaf descr),
                         (''input_schema'',
                            DictV [(''type'', Leaf (VStr ''object'')),
                               (''properties'', expected_field h0 attrs ''properties'' (DictV [])),
                               (''required'', expected_field h0 attrs ''required'' (ListV []))])]"
        unfolding shape_of_dict[OF fr2(1) ob[unfolded outer_def]] using s2
        by (simp add: shape_of_old[OF nm_ok] shape_of_old[OF descr_ok])
      show ?thesis
        unfolding s1 using t0 nm descr_leaf
        by (simp add: expected_tool_def)
    qed
    show ?thesis
      apply (rule exI[of _ "Suc (Suc (Suc ?n))"])
      apply (rule exI[of _ new])
      using r s by (simp add: new_def)
  qed
qed

lemma convert_tool_frame:
  assumes cl: "no_dangling h0" and tl: "is_tool h0 t" and pre: "take (length h0) h = h0"
  shows "\<exists>out h1. store_convert_tool t h = Inr (VRef out, h1) \<and>
           take (length h) h1 = h \<and> length h \<le> out \<and> out < length h1 \<and>
           (\<forall>g k. agree (length h) h1 g \<longrightarrow>
              shape_of (length h0) (Suc (Suc (Suc k))) g (VRef out) = expected_tool h0 t)"
proof -
  define d where "d = drop (length h0) h"
  have h: "h = h0 @ d"
    unfolding d_def by (metis append_take_drop_id pre)
  obtain out new where a: "store_convert_tool t (h0 @ d) = Inr (VRef out, h0 @ d @ new)"
      "length (h0 @ d) \<le> out" "out < length (h0 @ d @ new)"
      "\<forall>g k. agree (length (h0 @ d)) (h0 @ d @ new) g \<longrightarrow>
              shape_of (length h0) (Suc (Suc (Suc k))) g (VRef out) = expected_tool h0 t"
    using convert_tool_store[OF cl tl, of d] by blast
  have t: "take (length (h0 @ d)) (h0 @ d @ new) = h0 @ d"
    by simp
  show ?thesis
    unfolding h
    apply (rule exI[of _ out])
    apply (rule exI[of _ "h0 @ d @ new"])
    apply (intro conjI)
        apply (rule a(1))
       apply (rule t)
      apply (rule a(2))
     apply (rule a(3))
    apply (rule a(4))
    done
qed

lemma agree_refl: "agree lo h h"
  by (simp add: agree_def)

lemma convert_loop_frame:
  assumes cl: "no_dangling h0" and ts: "list_all (is_tool h0) ts" and pre: "take (length h0) h = h0"
    and l: "length h0 \<le> l" "l < length h" "h ! l = HList xs"
  shows "\<exists>outs h2. store_convert_loop ts (VRef l) h = Inr h2 \<and>
           length h \<le> length h2 \<and>
           take (length h) h2 = h[l := HList (xs @ outs)] \<and>
           (\<forall>g k. agree (length h) h2 g \<longrightarrow>
              map (shape_of (length h0) (Suc (Suc (Suc k))) g) outs = map (expected_tool h0) ts)"
  using ts pre l
proof (induction ts arbitrary: h xs)
  case Nil
  have "h[l := HList (xs @ [])] = h"
    using Nil.prems(5) list_update_id[of h l] by simp
  then show ?case
    apply -
    apply (rule exI[of _ "[]"])
    apply (rule exI[of _ h])
    by simp
next
  case (Cons t ts)
  from Cons.prems(1) have tl: "is_tool h0 t" and tsl: "list_all (is_tool h0) ts" by simp_all
  obtain out h1 where a: "store_convert_tool t h = Inr (VRef out, h1)"
      "take (length h) h1 = h" "length h \<le> out" "out < length h1"
      "\<forall>g k. agree (length h) h1 g \<longrightarrow>
              shape_of (length h0) (Suc (Suc (Suc k))) g (VRef out) = expected_tool h0 t"
    using convert_tool_frame[OF cl tl Cons.prems(2)] by blast
  have len1: "length h \<le> length h1"
    using a(3,4) by simp
  have h1l: "h1 ! l = HList xs"
    using a(2) Cons.prems(4,5) by (metis nth_take)
  define h1' where "h1' = h1[l := HList (xs @ [VRef out])]"
  have app: "store_append (VRef l) (VRef out) h1 = Inr h1'"
    using h1l Cons.prems(4) len1 by (simp add: store_append_def obj_at_def h1'_def)
  have pre1: "take (length h0) h1' = h0"
  proof -
    have "take (length h0) h1' = take (length h0) h1"
      using Cons.prems(3) by (simp add: h1'_def)
    also have "\<dots> = take (length h0) (take (length h) h1)"
      using Cons.prems(2,4) Cons.prems(3) by (simp add: min_def)
    also have "\<dots> = h0"
      using a(2) Cons.prems(2) by simp
    finally show ?thesis .
  qed
  have l1: "l < length h1'" "h1' ! l = HList (xs @ [VRef out])"
    using Cons.prems(4) len1 by (simp_all add: h1'_def)
  obtain outs h2 where b: "store_convert_loop ts (VRef l) h1' = Inr h2"
      "length h1' \<le> length h2"
      "take (length h1') h2 = h1'[l := HList ((xs @ [VRef out]) @ outs)]"
      "\<forall>g k. agree (length h1') h2 g \<longrightarrow>
              map (shape_of (length h0) (Suc (Suc (Suc k))) g) outs = map (expected_tool h0) ts"
    using Cons.IH[OF tsl pre1 Cons.prems(3) l1] by blast
  have run: "store_convert_loop (t # ts) (VRef l) h = Inr h2"
    using a(1) app b(1) by simp
  have len2: "length h \<le> length h2"
    using len1 b(2) by (simp add: h1'_def)
  have fr: "take (length h) h2 = h[l := HList (xs @ VRef out # outs)]"
  proof -
    have "take (length h) h2 = take (length h) (take (length h1') h2)"
      using len1 by (simp add: h1'_def min_def)
    also have "\<dots> = take (length h) (h1[l := HList (xs @ VRef out # outs)])"
      unfolding b(3) by (simp add: h1'_def)
    also have "\<dots> = (take (length h) h1)[l := HList (xs @ VRef out # outs)]"
      by (simp add: take_update_swap)
    finally show ?thesis using a(2) by simp
  qed
  have sh: "map (shape_of (length h0) (Suc (Suc (Suc k))) g) (VRef out # outs) =
            map (expected_tool h0) (t # ts)" if ag: "agree (length h) h2 g" for g k
  proof -
    have n2: "\<And>b. length h \<le> b \<Longrightarrow> b < length h1 \<Longrightarrow> h2 ! b = h1 ! b"
    proof -
      fix b assume b1: "length h \<le> b" and b2: "b < length h1"
      have "h2 ! b = (take (length h1') h2) ! b"
        using b2 by (simp add: h1'_def)
      also have "\<dots> = h1 ! b"
        unfolding b(3) using b1 b2 Cons.prems(4) by (simp add: h1'_def)
      finally show "h2 ! b = h1 ! b" .
    qed
    have ag1: "agree (length h) h1 g"
      using ag b(2) n2 by (auto simp: agree_def h1'_def)
    have ag2: "agree (length h1') h2 g"
      using ag len1 by (auto simp: agree_def h1'_def)
    show ?thesis
      using a(5) ag1 b(4) ag2 by simp
  qed
  show ?case
    apply (rule exI[of _ "VRef out # outs"])
    apply (rule exI[of _ h2])
    using run len2 fr sh by blast
qed

lemma convert_store:
  assumes cl: "no_dangling h0" and tools: "tools_of h0 self = Some ts" "list_all (is_tool h0) ts"
    and pre: "take (length h0) h = h0"
  shows "\<exists>h2. store_convert_to_anthropic_tools self h = Inr (VRef (length h), h2) \<and>
           take (length h) h2 = h \<and> length h < length h2 \<and>
           (\<forall>k. shape_of (length h0) (Suc (Suc (Suc (Suc k)))) h2 (VRef (length h)) =
                ListV (map (expected_tool h0) ts))"
proof -
  have "length (take (length h0) h) = length h0"
    using pre by simp
  then have len: "length h0 \<le> length h"
    by simp
  define d where "d = drop (length h0) h"
  have hd: "h = h0 @ d"
    unfolding d_def by (metis append_take_drop_id pre)
  have old: "obj_at h0 v = Some ob \<Longrightarrow> obj_at (h @ [HList []]) v = Some ob" for v ob
    unfolding hd using obj_at_append_old[of h0 v ob "d @ [HList []]"] by simp
  obtain mcp available where g: "py_getattr h0 self ''mcp_client'' = Inr mcp"
      "py_getattr h0 mcp ''available_tools'' = Inr available"
      "obj_at h0 available = Some (HList ts)"
    using tools(1) by (auto simp: tools_of_def split: sum.splits option.splits hobj.splits)
  have g1: "py_getattr (h @ [HList []]) self ''mcp_client'' = Inr mcp"
    using g(1) old[of self]
    by (auto simp: py_getattr_def split: option.splits hobj.splits)
  have g2: "py_getattr (h @ [HList []]) mcp ''available_tools'' = Inr available"
    using g(2) old[of mcp]
    by (auto simp: py_getattr_def split: option.splits hobj.splits)
  have g3: "obj_at (h @ [HList []]) available = Some (HList ts)"
    using old[OF g(3)] .
  have pre1: "take (length h0) (h @ [HList []]) = h0"
    using pre len by simp
  obtain outs h2 where b: "store_convert_loop ts (VRef (length h)) (h @ [HList []]) = Inr h2"
      "length (h @ [HList []]) \<le> length h2"
      "take (length (h @ [HList []])) h2 = (h @ [HList []])[length h := HList ([] @ outs)]"
      "\<forall>g k. agree (length (h @ [HList []])) h2 g \<longrightarrow>
              map (shape_of (length h0) (Suc (Suc (Suc k))) g) outs = map (expected_tool h0) ts"
    using convert_loop_frame[OF cl tools(2) pre1, of "length h" "[]"] len by auto
  have run: "store_convert_to_anthropic_tools self h = Inr (VRef (length h), h2)"
    using g1 g2 g3 b(1) by (simp add: store_convert_to_anthropic_tools_def alloc_def)
  have fr: "take (length h) h2 = h"
  proof -
    have "take (length h) h2 = take (length h) (take (length (h @ [HList []])) h2)"
      by (simp add: min_def)
    also have "\<dots> = h"
      unfolding b(3) by simp
    finally show ?thesis .
  qed
  have at: "obj_at h2 (VRef (length h)) = Some (HList outs)"
  proof -
    have "h2 ! length h = (take (length (h @ [HList []])) h2) ! length h"
      by simp
    also have "\<dots> = HList outs"
      unfolding b(3) by simp
    finally show ?thesis using b(2) by (simp add: obj_at_def)
  qed
  have sh: "shape_of (length h0) (Suc (Suc (Suc (Suc k)))) h2 (VRef (length h)) =
                ListV (map (expected_tool h0) ts)" for k
  proof -
    have "\<not> length h < length h0" using len by simp
    from shape_of_list[OF this at] b(4) agree_refl[of _ h2] show ?thesis by simp
  qed
  have lt: "length h < length h2"
    using b(2) by simp
  show ?thesis
    by (rule exI[of _ h2]) (use run fr lt sh in blast)
qed

section \<open>The properties\<close>

text \<open>
  C1. In every run of \<^verbatim>\<open>process_with_llm\<close>, for every model call that got a reply, the
  conversation sent with the next model call (the final conversation, when the loop
  makes no further call) is the conversation of that call, then the reply as an
  assistant turn, then exactly one tool-result message for each tool-use block of the
  reply, tagged with the blocks' ids in the blocks' order, and nothing else: no block is
  left without a result, none gets two, and all of them are in place before the model
  is called again.
\<close>

theorem tool_uses_answered:
  "rounds_answered
     (llm_rounds (trace (snd (process_with_llm json self user_input w))))
     (messages (snd (process_with_llm json self user_input w)))"
proof -
  let ?st0 = "\<lparr>world = w, messages = [UserMessage user_input], trace = []\<rparr>"
  let ?tools = "map spec_tool_definition (available_tools (mcp_client self))"
  obtain new where
    "llm_rounds (trace (snd (run_iterations json self ?tools max_iterations ?st0))) =
       llm_rounds (trace ?st0) @ new"
    "rounds_answered new (messages (snd (run_iterations json self ?tools max_iterations ?st0)))"
    using rounds_inv[of json self ?tools max_iterations ?st0] by blast
  then show ?thesis by (simp add: process_eq)
qed

theorem tool_uses_answered_witness:
  "rounds_answered
     (llm_rounds (trace (snd (process_with_llm example_json (example_client scripted_model)
        ''Add a todo to buy milk'' 0))))
     (messages (snd (process_with_llm example_json (example_client scripted_model)
        ''Add a todo to buy milk'' 0))) \<and>
   messages (snd (process_with_llm example_json (example_client scripted_model)
        ''Add a todo to buy milk'' 0)) =
     [UserMessage ''Add a todo to buy milk'',
      AssistantMessage
        [TextBlock ''Adding it.'',
         ToolUseBlock ''toolu_1'' ''create_todo'' (PDict [(''title'', PStr ''buy milk'')]),
         ToolUseBlock ''toolu_2'' ''list_todos'' (PDict [])],
      ToolResultMessage ''toolu_1'' ''[1]'' False,
      ToolResultMessage ''toolu_2'' ''Error: Connection reset'' True,
      AssistantMessage [TextBlock ''Added buy milk.'', TextBlock ''Anything else?'']] \<and>
   length (llm_rounds (trace (snd (process_with_llm example_json (example_client scripted_model)
        ''Add a todo to buy milk'' 0)))) = 2"
proof -
  have m: "messages (snd (process_with_llm example_json (example_client scripted_model)
        ''Add a todo to buy milk'' 0)) =
     [UserMessage ''Add a todo to buy milk'',
      AssistantMessage
        [TextBlock ''Adding it.'',
         ToolUseBlock ''toolu_1'' ''create_todo'' (PDict [(''title'', PStr ''buy milk'')]),
         ToolUseBlock ''toolu_2'' ''list_todos'' (PDict [])],
      ToolResultMessage ''toolu_1'' ''[1]'' False,
      ToolResultMessage ''toolu_2'' ''Error: Connection reset'' True,
      AssistantMessage [TextBlock ''Added buy milk.'', TextBlock ''Anything else?'']]"
    by code_simp
  have n: "length (llm_rounds (trace (snd (process_with_llm example_json
        (example_client scripted_model) ''Add a todo to buy milk'' 0)))) = 2"
    by code_simp
  from tool_uses_answered[of example_json "example_client scripted_model"
      "''Add a todo to buy milk''" 0] m n
  show ?thesis by (intro conjI)
qed

text \<open>
  C2. \<^verbatim>\<open>process_with_llm\<close> always returns a string (the loop is a recursion on the number
  of passes left, and each pass a recursion on the reply's tool calls, so it ends
  whenever the external calls return); it never makes more than \<^verbatim>\<open>max_iterations\<close> = 10
  model calls; and when it has made 10 model calls and every reply asked for a tool, it
  returns exactly the fixed message.
\<close>

theorem loop_bounded:
  "(\<exists>answer. fst (process_with_llm json self user_input w) = Inr answer) \<and>
   length (llm_rounds (trace (snd (process_with_llm json self user_input w)))) \<le> max_iterations \<and>
   max_iterations = 10 \<and>
   (length (llm_rounds (trace (snd (process_with_llm json self user_input w)))) = max_iterations \<and>
    list_all (\<lambda>r. wants_tools (snd r))
      (llm_rounds (trace (snd (process_with_llm json self user_input w)))) \<longrightarrow>
      fst (process_with_llm json self user_input w) = Inr cap_message) \<and>
   cap_message =
     ''I need more time to complete this request. Please try breaking it into smaller steps.''"
proof -
  have "\<exists>answer. fst (process_with_llm json self user_input w) = Inr answer"
    by (simp add: process_eq)
  moreover have "max_iterations = 10"
    by (simp add: max_iterations_def)
  moreover have "cap_message =
     ''I need more time to complete this request. Please try breaking it into smaller steps.''"
    by (simp add: cap_message_def)
  ultimately show ?thesis
    using process_inv[of json self user_input w] by blast
qed

theorem loop_bounded_witness:
  "length (llm_rounds (trace (snd (process_with_llm example_json (example_client greedy_model)
      ''Sort out my todos'' 0)))) = max_iterations \<and>
   list_all (\<lambda>r. wants_tools (snd r))
     (llm_rounds (trace (snd (process_with_llm example_json (example_client greedy_model)
        ''Sort out my todos'' 0)))) \<and>
   fst (process_with_llm example_json (example_client greedy_model) ''Sort out my todos'' 0) =
     Inr ''I need more time to complete this request. Please try breaking it into smaller steps.''"
proof -
  have a: "length (llm_rounds (trace (snd (process_with_llm example_json
      (example_client greedy_model) ''Sort out my todos'' 0)))) = max_iterations"
    by code_simp
  have b: "list_all (\<lambda>r. wants_tools (snd r))
     (llm_rounds (trace (snd (process_with_llm example_json (example_client greedy_model)
        ''Sort out my todos'' 0))))"
    by code_simp
  from loop_bounded[of example_json "example_client greedy_model" "''Sort out my todos''" 0] a b
  show ?thesis by simp
qed

text \<open>
  C3. For every client, the translation returns (it does not raise) one definition per
  descriptor, in order, and the definition of a descriptor is \<open>spec_tool_definition\<close> of it:
  the descriptor's name and description, and for \<^verbatim>\<open>properties\<close> and \<^verbatim>\<open>required\<close> the
  value the parameter schema has under that key when the schema is a mapping that has
  the key, and the empty default when the key is missing or the schema is not a
  mapping.
\<close>

theorem translation_mirrors_schema:
  "fst (convert_to_anthropic_tools self) =
     Inr (map spec_tool_definition (available_tools (mcp_client self))) \<and>
   (inputSchema t = Some (PDict kvs) \<and> map_of kvs key = Some v \<longrightarrow>
      spec_schema_field t key dflt = v) \<and>
   (inputSchema t = Some (PDict kvs) \<and> map_of kvs key = None \<longrightarrow>
      spec_schema_field t key dflt = dflt) \<and>
   ((\<forall>kvs'. inputSchema t \<noteq> Some (PDict kvs')) \<longrightarrow> spec_schema_field t key dflt = dflt)"
proof -
  have "(\<forall>kvs'. inputSchema t \<noteq> Some (PDict kvs')) \<longrightarrow> spec_schema_field t key dflt = dflt"
    by (cases "inputSchema t"; cases "the (inputSchema t)") (auto simp: spec_schema_field_def)
  then show ?thesis
    by (simp add: convert_eq spec_schema_field_def)
qed

theorem translation_mirrors_schema_witness:
  "fst (convert_to_anthropic_tools (example_client scripted_model)) =
     Inr [PDict [(''name'', PStr ''create_todo''),
                 (''description'', PStr ''Add a new task''),
                 (''input_schema'',
                    PDict [(''type'', PStr ''object''),
                           (''properties'', PDict [(''title'', PDict [(''type'', PStr ''string'')])]),
                           (''required'', PList [PStr ''title''])])],
          PDict [(''name'', PStr ''list_todos''),
                 (''description'', PNone),
                 (''input_schema'',
                    PDict [(''type'', PStr ''object''),
                           (''properties'', PDict []),
                           (''required'', PList [])])],
          PDict [(''name'', PStr ''ping''),
                 (''description'', PStr ''''),
                 (''input_schema'',
                    PDict [(''type'', PStr ''object''),
                           (''properties'', PDict []),
                           (''required'', PList [])])],
          PDict [(''name'', PStr ''noop''),
                 (''description'', PStr ''''),
                 (''input_schema'',
                    PDict [(''type'', PStr ''object''),
                           (''properties'', PDict []),
                           (''required'', PList [])])]] \<and>
   spec_schema_field (example_tools ! 0) ''required'' (PList []) = PList [PStr ''title''] \<and>
   spec_schema_field (example_tools ! 1) ''required'' (PList []) = PList [] \<and>
   spec_schema_field (example_tools ! 2) ''required'' (PList []) = PList []"
proof -
  have a: "inputSchema (example_tools ! 0) =
             Some (PDict [(''properties'', PDict [(''title'', PDict [(''type'', PStr ''string'')])]),
                          (''required'', PList [PStr ''title''])]) \<and>
           map_of [(''properties'', PDict [(''title'', PDict [(''type'', PStr ''string'')])]),
                   (''required'', PList [PStr ''title''])] ''required'' = Some (PList [PStr ''title''])"
    by (simp add: example_tools_def)
  have b: "inputSchema (example_tools ! 1) = Some (PDict [(''type'', PStr ''object'')]) \<and>
           map_of [(''type'', PStr ''object'')] ''required'' = None"
    by (simp add: example_tools_def)
  have c: "\<forall>kvs'. inputSchema (example_tools ! 2) \<noteq> Some (PDict kvs')"
    by (simp add: example_tools_def)
  have d: "map spec_tool_definition (available_tools (mcp_client (example_client scripted_model))) =
     [PDict [(''name'', PStr ''create_todo''),
                 (''description'', PStr ''Add a new task''),
                 (''input_schema'',
                    PDict [(''type'', PStr ''object''),
                           (''properties'', PDict [(''title'', PDict [(''type'', PStr ''string'')])]),
                           (''required'', PList [PStr ''title''])])],
          PDict [(''name'', PStr ''list_todos''),
                 (''description'', PNone),
                 (''input_schema'',
                    PDict [(''type'', PStr ''object''),
                           (''properties'', PDict []),
                           (''required'', PList [])])],
          PDict [(''name'', PStr ''ping''),
                 (''description'', PStr ''''),
                 (''input_schema'',
                    PDict [(''type'', PStr ''object''),
                           (''properties'', PDict []),
                           (''required'', PList [])])],
          PDict [(''name'', PStr ''noop''),
                 (''description'', PStr ''''),
                 (''input_schema'',
                    PDict [(''type'', PStr ''object''),
                           (''properties'', PDict []),
                           (''required'', PList [])])]]"
    by (simp add: example_client_def example_tools_def spec_tool_definition_def spec_schema_field_def)
  from translation_mirrors_schema[of "example_client scripted_model" "example_tools ! 0"
      "[(''properties'', PDict [(''title'', PDict [(''type'', PStr ''string'')])]),
        (''required'', PList [PStr ''title''])]" "''required''" "PList [PStr ''title'']" "PList []"] a
  have 1: "fst (convert_to_anthropic_tools (example_client scripted_model)) =
             Inr (map spec_tool_definition (available_tools (mcp_client (example_client scripted_model))))"
    and 2: "spec_schema_field (example_tools ! 0) ''required'' (PList []) = PList [PStr ''title'']"
    by blast+
  from translation_mirrors_schema[of "example_client scripted_model" "example_tools ! 1"
      "[(''type'', PStr ''object'')]" "''required''" undefined "PList []"] b
  have 3: "spec_schema_field (example_tools ! 1) ''required'' (PList []) = PList []"
    by blast
  from translation_mirrors_schema[of "example_client scripted_model" "example_tools ! 2"
      undefined "''required''" undefined "PList []"] c
  have 4: "spec_schema_field (example_tools ! 2) ''required'' (PList []) = PList []"
    by blast
  from 1 2 3 4 d show ?thesis by simp
qed

text \<open>
  C4, as the code has it, for a client with debug logging off. When a model reply of a
  run contains no tool-use block, that call is the run's last model call and
  \<^verbatim>\<open>process_with_llm\<close> returns the text of the reply's first text block; when the reply
  has no text block either, it returns the fixed string \<^verbatim>\<open>I completed the task.\<close>
  With debug logging on, the reply's text is printed inside the \<^verbatim>\<open>try\<close> block before it
  is returned, and what the run returns when that print raises is no part of this
  statement.
\<close>

theorem final_answer:
  assumes "debug self = False"
    and "(ms, Inr content) \<in> set (llm_rounds (trace (snd (process_with_llm json self user_input w))))"
    and "filter is_tool_use content = []"
  shows "fst (process_with_llm json self user_input w) =
           Inr (case filter is_text content of
                  b # bs \<Rightarrow> block_text b
                | [] \<Rightarrow> ''I completed the task.'') \<and>
         last (llm_rounds (trace (snd (process_with_llm json self user_input w)))) =
           (ms, Inr content)"
  using assms(2,3) process_inv[of json self user_input w] by blast

theorem final_answer_witness:
  "debug (example_client scripted_model) = False \<and>
   debug (example_client silent_model) = False \<and>
   fst (process_with_llm example_json (example_client scripted_model)
        ''Add a todo to buy milk'' 0) = Inr ''Added buy milk.'' \<and>
   fst (process_with_llm example_json (example_client silent_model) ''hello'' 0) =
     Inr ''I completed the task.''"
proof -
  have a: "llm_rounds (trace (snd (process_with_llm example_json (example_client scripted_model)
        ''Add a todo to buy milk'' 0))) =
     [([UserMessage ''Add a todo to buy milk''],
       Inr [TextBlock ''Adding it.'',
            ToolUseBlock ''toolu_1'' ''create_todo'' (PDict [(''title'', PStr ''buy milk'')]),
            ToolUseBlock ''toolu_2'' ''list_todos'' (PDict [])]),
      ([UserMessage ''Add a todo to buy milk'',
        AssistantMessage
          [TextBlock ''Adding it.'',
           ToolUseBlock ''toolu_1'' ''create_todo'' (PDict [(''title'', PStr ''buy milk'')]),
           ToolUseBlock ''toolu_2'' ''list_todos'' (PDict [])],
        ToolResultMessage ''toolu_1'' ''[1]'' False,
        ToolResultMessage ''toolu_2'' ''Error: Connection reset'' True],
       Inr [TextBlock ''Added buy milk.'', TextBlock ''Anything else?''])]"
    by code_simp
  have a': "([UserMessage ''Add a todo to buy milk'',
        AssistantMessage
          [TextBlock ''Adding it.'',
           ToolUseBlock ''toolu_1'' ''create_todo'' (PDict [(''title'', PStr ''buy milk'')]),
           ToolUseBlock ''toolu_2'' ''list_todos'' (PDict [])],
        ToolResultMessage ''toolu_1'' ''[1]'' False,
        ToolResultMessage ''toolu_2'' ''Error: Connection reset'' True],
       Inr [TextBlock ''Added buy milk.'', TextBlock ''Anything else?''])
     \<in> set (llm_rounds (trace (snd (process_with_llm example_json (example_client scripted_model)
        ''Add a todo to buy milk'' 0))))"
    unfolding a by simp
  have b: "llm_rounds (trace (snd (process_with_llm example_json (example_client silent_model)
        ''hello'' 0))) = [([UserMessage ''hello''], Inr [])]"
    by code_simp
  have b': "([UserMessage ''hello''], Inr [])
     \<in> set (llm_rounds (trace (snd (process_with_llm example_json (example_client silent_model)
        ''hello'' 0))))"
    using b by simp
  have d: "debug (example_client scripted_model) = False"
      "debug (example_client silent_model) = False"
    by (simp_all add: example_client_def)
  from final_answer[OF d(1) a'] final_answer[OF d(2) b'] d show ?thesis by simp
qed

text \<open>
  C4 as stated names another fallback string. A run, with debug logging off, whose only
  model reply has no content block at all returns \<^verbatim>\<open>I completed the task.\<close>, which is
  not that string.
\<close>

theorem fallback_text_counterexample:
  "llm_rounds (trace (snd (process_with_llm example_json (example_client silent_model)
      ''hello'' 0))) = [([UserMessage ''hello''], Inr [])] \<and>
   fst (process_with_llm example_json (example_client silent_model) ''hello'' 0) \<noteq>
     Inr ''task completed with no further detail''"
proof -
  have a: "llm_rounds (trace (snd (process_with_llm example_json (example_client silent_model)
        ''hello'' 0))) = [([UserMessage ''hello''], Inr [])]"
    by code_simp
  have b: "fst (process_with_llm example_json (example_client silent_model) ''hello'' 0) =
     Inr ''I completed the task.''"
    by code_simp
  show ?thesis using a b by simp
qed

text \<open>
  C5. When \<^verbatim>\<open>update_todo\<close> or \<^verbatim>\<open>delete_todo\<close> is called with an id that is not a key of
  the store, the call does not raise: it returns the dict with \<^verbatim>\<open>success\<close> false and
  \<^verbatim>\<open>error\<close> the text \<^verbatim>\<open>Todo {todo_id} not found\<close>, and leaves the store as it was.
\<close>

theorem not_found_is_a_result:
  assumes "map_of (todos store) todo_id = None"
  shows "update_todo todo_id title descr priority completed now store =
           Inr (PDict [(''success'', PBool False),
                       (''error'', PStr (''Todo '' @ str_int todo_id @ '' not found''))],
                store) \<and>
         delete_todo todo_id store =
           Inr (PDict [(''success'', PBool False),
                       (''error'', PStr (''Todo '' @ str_int todo_id @ '' not found''))],
                store)"
  using assms by (simp add: update_todo_def delete_todo_def not_found_def)

theorem not_found_is_a_result_witness:
  "map_of (todos (snd (create_todo ''a'' '''' ''low'' ''t0'' TodoStore_init))) 99 = None \<and>
   update_todo 99 (Some ''b'') None None (Some True) ''t1''
       (snd (create_todo ''a'' '''' ''low'' ''t0'' TodoStore_init)) =
     Inr (PDict [(''success'', PBool False), (''error'', PStr ''Todo 99 not found'')],
          snd (create_todo ''a'' '''' ''low'' ''t0'' TodoStore_init)) \<and>
   delete_todo 99 (snd (create_todo ''a'' '''' ''low'' ''t0'' TodoStore_init)) =
     Inr (PDict [(''success'', PBool False), (''error'', PStr ''Todo 99 not found'')],
          snd (create_todo ''a'' '''' ''low'' ''t0'' TodoStore_init)) \<and>
   delete_todo (- 4) TodoStore_init =
     Inr (PDict [(''success'', PBool False), (''error'', PStr ''Todo -4 not found'')],
          TodoStore_init)"
proof -
  have h: "map_of (todos (snd (create_todo ''a'' '''' ''low'' ''t0'' TodoStore_init))) 99 = None"
    by (simp add: create_todo_def get_next_id_def TodoStore_init_def Let_def)
  have h': "map_of (todos TodoStore_init) (- 4) = None"
    by (simp add: TodoStore_init_def)
  have s: "str_int 99 = ''99''" "str_int (- 4) = ''-4''"
    by (simp_all add: str_int_def str_nat.simps digit_char_def)
  from not_found_is_a_result[OF h, of "Some ''b''" None None "Some True" "''t1''"]
       not_found_is_a_result[OF h', of None None None None "''''"] h s
  show ?thesis by simp
qed

text \<open>
  C6. When the adapter call for a tool-use block raises, the pass for that block appends
  one tool-result message tagged with the block's id, flagged as an error and carrying
  \<^verbatim>\<open>Error: \<close> followed by the exception's text; the session is asked at most once for
  the block (once when connected, not at all when there is no session), so nothing is
  retried; and the loop over the reply's blocks goes on with the remaining blocks.
\<close>

theorem tool_failure_reported:
  assumes "call_tool (mcp_client self) (block_name tc) (block_input tc) st = (Inl e, st')"
  shows "execute_tool_call json self tc st =
           st'\<lparr>messages := messages st @
                  [ToolResultMessage (block_id tc) (''Error: '' @ str_exn e) True]\<rparr> \<and>
         tool_rounds (trace (execute_tool_call json self tc st)) =
           tool_rounds (trace st) @
             (if session (mcp_client self) = None then []
              else [(block_name tc, block_input tc)]) \<and>
         execute_tool_calls json self (tc # rest) st =
           execute_tool_calls json self rest
             (st'\<lparr>messages := messages st @
                    [ToolResultMessage (block_id tc) (''Error: '' @ str_exn e) True]\<rparr>)"
proof -
  have m: "messages st' = messages st"
    using call_tool_effect(1)[OF assms] .
  have a: "execute_tool_call json self tc st =
           st'\<lparr>messages := messages st @
                  [ToolResultMessage (block_id tc) (''Error: '' @ str_exn e) True]\<rparr>"
    using assms m by (simp add: execute_tool_call_def error_result_def)
  obtain evs where evs: "trace st' = trace st @ evs"
      "tool_rounds evs =
         (if session (mcp_client self) = None then [] else [(block_name tc, block_input tc)])"
    using call_tool_effect(2)[OF assms] by blast
  have b: "tool_rounds (trace (execute_tool_call json self tc st)) =
           tool_rounds (trace st) @
             (if session (mcp_client self) = None then []
              else [(block_name tc, block_input tc)])"
    unfolding a using evs by (simp add: tool_rounds_append)
  have c: "execute_tool_calls json self (tc # rest) st =
           execute_tool_calls json self rest
             (st'\<lparr>messages := messages st @
                    [ToolResultMessage (block_id tc) (''Error: '' @ str_exn e) True]\<rparr>)"
    using a by simp
  show ?thesis by (intro conjI a b c)
qed

theorem tool_failure_reported_witness:
  "call_tool (mcp_client (example_client scripted_model)) ''list_todos'' (PDict []) example_run =
     (Inl (Exception ''Connection reset''),
      \<lparr>world = 1, messages = [UserMessage ''hello''],
       trace = [ToolCall ''list_todos'' (PDict []) (Inl (Exception ''Connection reset''))]\<rparr>) \<and>
   execute_tool_calls example_json (example_client scripted_model)
       [ToolUseBlock ''toolu_2'' ''list_todos'' (PDict []),
        ToolUseBlock ''toolu_3'' ''create_todo'' (PDict [])] example_run =
     \<lparr>world = 1,
      messages =
        [UserMessage ''hello'',
         ToolResultMessage ''toolu_2'' ''Error: Connection reset'' True,
         ToolResultMessage ''toolu_3'' ''[1]'' False],
      trace =
        [ToolCall ''list_todos'' (PDict []) (Inl (Exception ''Connection reset'')),
         ToolCall ''create_todo'' (PDict [])
           (Inr (CallToolResult (Some [TextContent ''[1]''])))]\<rparr>"
proof -
  have h: "call_tool (mcp_client (example_client scripted_model))
             (block_name (ToolUseBlock ''toolu_2'' ''list_todos'' (PDict [])))
             (block_input (ToolUseBlock ''toolu_2'' ''list_todos'' (PDict []))) example_run =
     (Inl (Exception ''Connection reset''),
      \<lparr>world = 1, messages = [UserMessage ''hello''],
       trace = [ToolCall ''list_todos'' (PDict []) (Inl (Exception ''Connection reset''))]\<rparr>)"
    by (simp add: call_tool_def example_client_def example_session_def example_run_def)
  have r: "execute_tool_calls example_json (example_client scripted_model)
       [ToolUseBlock ''toolu_3'' ''create_todo'' (PDict [])]
       \<lparr>world = 1,
        messages = [UserMessage ''hello'',
                    ToolResultMessage ''toolu_2'' ''Error: Connection reset'' True],
        trace = [ToolCall ''list_todos'' (PDict []) (Inl (Exception ''Connection reset''))]\<rparr> =
     \<lparr>world = 1,
      messages =
        [UserMessage ''hello'',
         ToolResultMessage ''toolu_2'' ''Error: Connection reset'' True,
         ToolResultMessage ''toolu_3'' ''[1]'' False],
      trace =
        [ToolCall ''list_todos'' (PDict []) (Inl (Exception ''Connection reset'')),
         ToolCall ''create_todo'' (PDict [])
           (Inr (CallToolResult (Some [TextContent ''[1]''])))]\<rparr>"
    by (simp add: execute_tool_call_def call_tool_def example_client_def example_session_def
          parse_result_def example_json_def Let_def)
  from tool_failure_reported[OF h, of example_json
      "[ToolUseBlock ''toolu_3'' ''create_todo'' (PDict [])]"] h r
  show ?thesis by (simp add: example_run_def)
qed

text \<open>
  C7. The payload of a tool response is \<^verbatim>\<open>json.loads\<close> of the text of its first content
  item; a response whose content list is empty, or that has no content at all, gives the
  empty object and no error. In the loop, after an adapter call that returned, the
  message appended for an empty or missing content carries the serialised empty object
  and is not flagged as an error, and the message appended for a first text item that
  parses carries the serialised parsed value.
\<close>

theorem tool_response_parsed:
  "parse_result json (CallToolResult (Some (TextContent t # others))) = loads json t \<and>
   parse_result json (CallToolResult (Some [])) = Inr (PDict []) \<and>
   parse_result json (CallToolResult None) = Inr (PDict []) \<and>
   (call_tool (mcp_client self) (block_name tc) (block_input tc) st = (Inr result, st') \<and>
    (result_content result = None \<or> result_content result = Some []) \<longrightarrow>
      execute_tool_call json self tc st =
        st'\<lparr>messages := messages st @
               [ToolResultMessage (block_id tc) (dumps json (PDict [])) False]\<rparr>) \<and>
   (call_tool (mcp_client self) (block_name tc) (block_input tc) st = (Inr result, st') \<and>
    result_content result = Some (TextContent t # others) \<and> loads json t = Inr v \<longrightarrow>
      execute_tool_call json self tc st =
        st'\<lparr>messages := messages st @
               [ToolResultMessage (block_id tc) (dumps json v) False]\<rparr>)"
proof -
  have a: "parse_result json (CallToolResult (Some (TextContent t # others))) = loads json t"
    by (simp add: parse_result_def)
  have b: "parse_result json (CallToolResult (Some [])) = Inr (PDict [])"
    by (simp add: parse_result_def)
  have c: "parse_result json (CallToolResult None) = Inr (PDict [])"
    by (simp add: parse_result_def)
  have d: "call_tool (mcp_client self) (block_name tc) (block_input tc) st = (Inr result, st') \<and>
    (result_content result = None \<or> result_content result = Some []) \<longrightarrow>
      execute_tool_call json self tc st =
        st'\<lparr>messages := messages st @
               [ToolResultMessage (block_id tc) (dumps json (PDict [])) False]\<rparr>"
  proof
    assume h: "call_tool (mcp_client self) (block_name tc) (block_input tc) st = (Inr result, st') \<and>
      (result_content result = None \<or> result_content result = Some [])"
    then have m: "messages st' = messages st"
      using call_tool_effect(1) by blast
    from h have "parse_result json result = Inr (PDict [])"
      by (auto simp: parse_result_def)
    with h m show "execute_tool_call json self tc st =
        st'\<lparr>messages := messages st @
               [ToolResultMessage (block_id tc) (dumps json (PDict [])) False]\<rparr>"
      by (simp add: execute_tool_call_def)
  qed
  have e: "call_tool (mcp_client self) (block_name tc) (block_input tc) st = (Inr result, st') \<and>
    result_content result = Some (TextContent t # others) \<and> loads json t = Inr v \<longrightarrow>
      execute_tool_call json self tc st =
        st'\<lparr>messages := messages st @
               [ToolResultMessage (block_id tc) (dumps json v) False]\<rparr>"
  proof
    assume h: "call_tool (mcp_client self) (block_name tc) (block_input tc) st = (Inr result, st') \<and>
      result_content result = Some (TextContent t # others) \<and> loads json t = Inr v"
    then have m: "messages st' = messages st"
      using call_tool_effect(1) by blast
    from h have "parse_result json result = Inr v"
      by (simp add: parse_result_def)
    with h m show "execute_tool_call json self tc st =
        st'\<lparr>messages := messages st @
               [ToolResultMessage (block_id tc) (dumps json v) False]\<rparr>"
      by (simp add: execute_tool_call_def)
  qed
  show ?thesis by (intro conjI a b c d e)
qed

theorem tool_response_parsed_witness:
  "execute_tool_call example_json (example_client scripted_model)
       (ToolUseBlock ''toolu_1'' ''create_todo'' (PDict [])) example_run =
     \<lparr>world = 1,
      messages = [UserMessage ''hello'', ToolResultMessage ''toolu_1'' ''[1]'' False],
      trace = [ToolCall ''create_todo'' (PDict [])
                 (Inr (CallToolResult (Some [TextContent ''[1]''])))]\<rparr> \<and>
   execute_tool_call example_json (example_client scripted_model)
       (ToolUseBlock ''toolu_2'' ''ping'' (PDict [])) example_run =
     \<lparr>world = 1,
      messages = [UserMessage ''hello'', ToolResultMessage ''toolu_2'' ''{}'' False],
      trace = [ToolCall ''ping'' (PDict []) (Inr (CallToolResult (Some [])))]\<rparr> \<and>
   execute_tool_call example_json (example_client scripted_model)
       (ToolUseBlock ''toolu_3'' ''noop'' (PDict [])) example_run =
     \<lparr>world = 1,
      messages = [UserMessage ''hello'', ToolResultMessage ''toolu_3'' ''{}'' False],
      trace = [ToolCall ''noop'' (PDict []) (Inr (CallToolResult None))]\<rparr>"
proof -
  have h1: "call_tool (mcp_client (example_client scripted_model))
              (block_name (ToolUseBlock ''toolu_1'' ''create_todo'' (PDict [])))
              (block_input (ToolUseBlock ''toolu_1'' ''create_todo'' (PDict []))) example_run =
            (Inr (CallToolResult (Some [TextContent ''[1]''])),
             \<lparr>world = 1, messages = [UserMessage ''hello''],
              trace = [ToolCall ''create_todo'' (PDict [])
                         (Inr (CallToolResult (Some [TextContent ''[1]''])))]\<rparr>) \<and>
            result_content (CallToolResult (Some [TextContent ''[1]''])) =
              Some (TextContent ''[1]'' # []) \<and>
            loads example_json ''[1]'' = Inr (PList [PInt 1])"
    by (simp add: call_tool_def example_client_def example_session_def example_run_def
          example_json_def)
  have h2: "call_tool (mcp_client (example_client scripted_model))
              (block_name (ToolUseBlock ''toolu_2'' ''ping'' (PDict [])))
              (block_input (ToolUseBlock ''toolu_2'' ''ping'' (PDict []))) example_run =
            (Inr (CallToolResult (Some [])),
             \<lparr>world = 1, messages = [UserMessage ''hello''],
              trace = [ToolCall ''ping'' (PDict []) (Inr (CallToolResult (Some [])))]\<rparr>) \<and>
            (result_content (CallToolResult (Some [])) = None \<or>
             result_content (CallToolResult (Some [])) = Some [])"
    by (simp add: call_tool_def example_client_def example_session_def example_run_def)
  have h3: "call_tool (mcp_client (example_client scripted_model))
              (block_name (ToolUseBlock ''toolu_3'' ''noop'' (PDict [])))
              (block_input (ToolUseBlock ''toolu_3'' ''noop'' (PDict []))) example_run =
            (Inr (CallToolResult None),
             \<lparr>world = 1, messages = [UserMessage ''hello''],
              trace = [ToolCall ''noop'' (PDict []) (Inr (CallToolResult None))]\<rparr>) \<and>
            (result_content (CallToolResult None) = None \<or>
             result_content (CallToolResult None) = Some [])"
    by (simp add: call_tool_def example_client_def example_session_def example_run_def)
  have d: "dumps example_json (PList [PInt 1]) = ''[1]''" "dumps example_json (PDict []) = ''{}''"
    by (simp_all add: example_json_def)
  have m: "messages example_run = [UserMessage ''hello'']"
    by (simp add: example_run_def)
  from tool_response_parsed[of example_json "''[1]''" "[]" "example_client scripted_model"
         "ToolUseBlock ''toolu_1'' ''create_todo'' (PDict [])" example_run
         "CallToolResult (Some [TextContent ''[1]''])" _ "PList [PInt 1]"] h1
  have 1: "execute_tool_call example_json (example_client scripted_model)
       (ToolUseBlock ''toolu_1'' ''create_todo'' (PDict [])) example_run =
     \<lparr>world = 1, messages = [UserMessage ''hello''],
       trace = [ToolCall ''create_todo'' (PDict [])
                  (Inr (CallToolResult (Some [TextContent ''[1]''])))]\<rparr>
     \<lparr>messages := messages example_run @
        [ToolResultMessage (block_id (ToolUseBlock ''toolu_1'' ''create_todo'' (PDict [])))
           (dumps example_json (PList [PInt 1])) False]\<rparr>"
    by blast
  from tool_response_parsed[of example_json _ _ "example_client scripted_model"
         "ToolUseBlock ''toolu_2'' ''ping'' (PDict [])" example_run
         "CallToolResult (Some [])"] h2
  have 2: "execute_tool_call example_json (example_client scripted_model)
       (ToolUseBlock ''toolu_2'' ''ping'' (PDict [])) example_run =
     \<lparr>world = 1, messages = [UserMessage ''hello''],
       trace = [ToolCall ''ping'' (PDict []) (Inr (CallToolResult (Some [])))]\<rparr>
     \<lparr>messages := messages example_run @
        [ToolResultMessage (block_id (ToolUseBlock ''toolu_2'' ''ping'' (PDict [])))
           (dumps example_json (PDict [])) False]\<rparr>"
    by blast
  from tool_response_parsed[of example_json _ _ "example_client scripted_model"
         "ToolUseBlock ''toolu_3'' ''noop'' (PDict [])" example_run
         "CallToolResult None"] h3
  have 3: "execute_tool_call example_json (example_client scripted_model)
       (ToolUseBlock ''toolu_3'' ''noop'' (PDict [])) example_run =
     \<lparr>world = 1, messages = [UserMessage ''hello''],
       trace = [ToolCall ''noop'' (PDict []) (Inr (CallToolResult None))]\<rparr>
     \<lparr>messages := messages example_run @
        [ToolResultMessage (block_id (ToolUseBlock ''toolu_3'' ''noop'' (PDict [])))
           (dumps example_json (PDict [])) False]\<rparr>"
    by blast
  from 1 2 3 d m show ?thesis by simp
qed



text \<open>
  C9. On a store without dangling references, for a client whose tool list holds
  descriptor objects: the translation returns; every object that was in the store
  before the call is as it was afterwards (descriptors, schemas, client and all else:
  the only object the method writes to is the list it allocated itself); applied a
  second time, on the store the first call left, it returns a new list of the same
  shape as the first, built from the same descriptor values, and again changes no
  earlier object, the first result included; and from any store that extends the
  original one it returns a result of that same shape, so the result depends on
  nothing but what was there before.
\<close>

theorem translation_leaves_store:
  assumes "no_dangling h" and "tools_ok h self"
  shows "\<exists>r h'. store_convert_to_anthropic_tools self h = Inr (r, h') \<and>
           take (length h) h' = h \<and>
           (\<exists>r2 h''. store_convert_to_anthropic_tools self h' = Inr (r2, h'') \<and>
              take (length h') h'' = h' \<and> r2 \<noteq> r \<and>
              (\<forall>k. shape_of (length h) (4 + k) h'' r2 = shape_of (length h) (4 + k) h' r)) \<and>
           (\<forall>g. take (length h) g = h \<longrightarrow>
              (\<exists>r2 g'. store_convert_to_anthropic_tools self g = Inr (r2, g') \<and>
                 take (length g) g' = g \<and>
                 (\<forall>k. shape_of (length h) (4 + k) g' r2 = shape_of (length h) (4 + k) h' r)))"
proof -
  obtain ts where ts: "tools_of h self = Some ts" "list_all (is_tool h) ts"
    using assms(2) by (auto simp: tools_ok_def split: option.splits)
  have four: "4 + k = Suc (Suc (Suc (Suc k)))" for k :: nat
    by simp
  have any: "\<exists>g'. store_convert_to_anthropic_tools self g = Inr (VRef (length g), g') \<and>
           take (length g) g' = g \<and> length g < length g' \<and>
           (\<forall>k. shape_of (length h) (4 + k) g' (VRef (length g)) = ListV (map (expected_tool h) ts))"
    if "take (length h) g = h" for g
    using convert_store[OF assms(1) ts that] unfolding four .
  obtain h' where 1: "store_convert_to_anthropic_tools self h = Inr (VRef (length h), h')"
      "take (length h) h' = h" "length h < length h'"
      "\<forall>k. shape_of (length h) (4 + k) h' (VRef (length h)) = ListV (map (expected_tool h) ts)"
    using any[of h] by auto
  obtain h'' where 2: "store_convert_to_anthropic_tools self h' = Inr (VRef (length h'), h'')"
      "take (length h') h'' = h'"
      "\<forall>k. shape_of (length h) (4 + k) h'' (VRef (length h')) = ListV (map (expected_tool h) ts)"
    using any[OF 1(2)] by auto
  have a: "\<exists>r2 h''. store_convert_to_anthropic_tools self h' = Inr (r2, h'') \<and>
              take (length h') h'' = h' \<and> r2 \<noteq> VRef (length h) \<and>
              (\<forall>k. shape_of (length h) (4 + k) h'' r2 =
                   shape_of (length h) (4 + k) h' (VRef (length h)))"
    apply (rule exI[of _ "VRef (length h')"])
    apply (rule exI[of _ h''])
    using 2 1(3,4) by simp
  have b: "\<forall>g. take (length h) g = h \<longrightarrow>
              (\<exists>r2 g'. store_convert_to_anthropic_tools self g = Inr (r2, g') \<and>
                 take (length g) g' = g \<and>
                 (\<forall>k. shape_of (length h) (4 + k) g' r2 =
                      shape_of (length h) (4 + k) h' (VRef (length h))))"
    using any 1(4) by metis
  show ?thesis
    apply (rule exI[of _ "VRef (length h)"])
    apply (rule exI[of _ h'])
    using 1(1,2) a b by blast
qed

theorem translation_leaves_store_witness:
  "no_dangling ex_heap \<and> tools_ok ex_heap (VRef 0) \<and>
   fst (projr (store_convert_to_anthropic_tools (VRef 0) ex_heap)) = VRef 10 \<and>
   take (length ex_heap) (snd (projr (store_convert_to_anthropic_tools (VRef 0) ex_heap))) =
     ex_heap \<and>
   fst (projr (store_convert_to_anthropic_tools (VRef 0)
     (snd (projr (store_convert_to_anthropic_tools (VRef 0) ex_heap))))) = VRef 24 \<and>
   shape_of (length ex_heap) 4
     (snd (projr (store_convert_to_anthropic_tools (VRef 0)
        (snd (projr (store_convert_to_anthropic_tools (VRef 0) ex_heap))))))
     (VRef 24) =
   shape_of (length ex_heap) 4
     (snd (projr (store_convert_to_anthropic_tools (VRef 0) ex_heap))) (VRef 10) \<and>
   shape_of (length ex_heap) 4
     (snd (projr (store_convert_to_anthropic_tools (VRef 0) ex_heap))) (VRef 10) =
     ListV
       [DictV [(''name'', Leaf (VStr ''create_todo'')),
               (''description'', Leaf (VStr ''Add a new task'')),
               (''input_schema'',
                  DictV [(''type'', Leaf (VStr ''object'')), (''properties'', Old 7),
                         (''required'', Old 8)])],
        DictV [(''name'', Leaf (VStr ''list_todos'')), (''description'', Leaf VNone),
               (''input_schema'',
                  DictV [(''type'', Leaf (VStr ''object'')), (''properties'', DictV []),
                         (''required'', ListV [])])],
        DictV [(''name'', Leaf (VStr ''ping'')), (''description'', Leaf (VStr '''')),
               (''input_schema'',
                  DictV [(''type'', Leaf (VStr ''object'')), (''properties'', DictV []),
                         (''required'', ListV [])])]]"
proof -
  have c: "no_dangling ex_heap"
    by code_simp
  have t: "tools_ok ex_heap (VRef 0)"
    by code_simp
  obtain r h' r2 h'' where
    1: "store_convert_to_anthropic_tools (VRef 0) ex_heap = Inr (r, h')"
       "take (length ex_heap) h' = ex_heap"
       "store_convert_to_anthropic_tools (VRef 0) h' = Inr (r2, h'')"
       "\<forall>k. shape_of (length ex_heap) (4 + k) h'' r2 = shape_of (length ex_heap) (4 + k) h' r"
    using translation_leaves_store[OF c t] by blast
  have e1: "fst (projr (store_convert_to_anthropic_tools (VRef 0) ex_heap)) = VRef 10"
    by code_simp
  have e2: "fst (projr (store_convert_to_anthropic_tools (VRef 0)
     (snd (projr (store_convert_to_anthropic_tools (VRef 0) ex_heap))))) = VRef 24"
    by code_simp
  have e3: "shape_of (length ex_heap) 4
     (snd (projr (store_convert_to_anthropic_tools (VRef 0) ex_heap))) (VRef 10) =
     ListV
       [DictV [(''name'', Leaf (VStr ''create_todo'')),
               (''description'', Leaf (VStr ''Add a new task'')),
               (''input_schema'',
                  DictV [(''type'', Leaf (VStr ''object'')), (''properties'', Old 7),
                         (''required'', Old 8)])],
        DictV [(''name'', Leaf (VStr ''list_todos'')), (''description'', Leaf VNone),
               (''input_schema'',
                  DictV [(''type'', Leaf (VStr ''object'')), (''properties'', DictV []),
                         (''required'', ListV [])])],
        DictV [(''name'', Leaf (VStr ''ping'')), (''description'', Leaf (VStr '''')),
               (''input_schema'',
                  DictV [(''type'', Leaf (VStr ''object'')), (''properties'', DictV []),
                         (''required'', ListV [])])]]"
    by code_simp
  have r: "r = VRef 10" "r2 = VRef 24"
    using 1(1,3) e1 e2 by simp_all
  have s: "shape_of (length ex_heap) 4 h'' r2 = shape_of (length ex_heap) 4 h' r"
    using 1(4)[rule_format, of 0] by simp
  show ?thesis
    using c t e1 e2 e3 1(1,2,3) r s by simp
qed

text \<open>
  C10. Over any sequence of tool calls against a store, whatever state the store starts
  in, the ids that the \<^verbatim>\<open>create_todo\<close> calls return are strictly increasing in the order
  issued (so each is greater than all issued before it, and no two are equal), one id
  per \<^verbatim>\<open>create_todo\<close> call; \<^verbatim>\<open>delete_todo\<close> calls in between do not bring an id back.
\<close>

theorem issued_ids_increase:
  "sorted_wrt (<) (issued_ids ops store) \<and>
   distinct (issued_ids ops store) \<and>
   length (issued_ids ops store) = length (filter is_create ops)"
proof -
  have s: "sorted_wrt (<) (issued_ids ops store)"
  proof (induction ops arbitrary: store)
    case Nil
    then show ?case by simp
  next
    case (Cons c ops)
    show ?case
    proof (cases "apply_op c store")
      case (Inl e)
      with Cons show ?thesis by simp
    next
      case (Inr p)
      obtain r s' where p: "apply_op c store = Inr (r, s')" using Inr by (cases p) simp
      have n: "is_create c \<longrightarrow> next_id s' = next_id store + 1"
        using apply_op_next[OF p] by (auto split: if_splits)
      have "\<forall>i \<in> set (issued_ids ops s'). next_id s' \<le> i"
        using issued_lower by blast
      with n Cons.IH[of s'] show ?thesis
        unfolding issued_ids_step[OF p] by (auto simp: sorted_wrt_append)
    qed
  qed
  have l: "length (issued_ids ops store) = length (filter is_create ops)"
  proof (induction ops arbitrary: store)
    case Nil
    then show ?case by simp
  next
    case (Cons c ops)
    show ?case
    proof (cases "apply_op c store")
      case (Inl e)
      with Cons apply_op_raises[OF Inl] show ?thesis by simp
    next
      case (Inr p)
      obtain r s' where p: "apply_op c store = Inr (r, s')" using Inr by (cases p) simp
      show ?thesis unfolding issued_ids_step[OF p] using Cons.IH[of s'] by simp
    qed
  qed
  from s have "distinct (issued_ids ops store)"
    by (simp add: strict_sorted_iff)
  with s l show ?thesis by simp
qed

theorem issued_ids_increase_witness:
  "issued_ids example_ops TodoStore_init = [1, 2, 3] \<and>
   map fst (todos (run_ops example_ops TodoStore_init)) = [3] \<and>
   sorted_wrt (<) (issued_ids example_ops TodoStore_init) \<and>
   distinct (issued_ids example_ops TodoStore_init) \<and>
   length (issued_ids example_ops TodoStore_init) = length (filter is_create example_ops)"
proof -
  have a: "issued_ids example_ops TodoStore_init = [1, 2, 3]"
    by code_simp
  have b: "map fst (todos (run_ops example_ops TodoStore_init)) = [3]"
    by code_simp
  from issued_ids_increase[of example_ops TodoStore_init] a b
  show ?thesis by (intro conjI) simp_all
qed

end
